theory Spec2Isabelle
  imports Complex_Main "HOL-Library.Stream" "HOL-Library.Multiset"
begin

section \<open>The chain connector: data model\<close>

text \<open>
  A shallow embedding of \<^verbatim>\<open>packages/chain-connector/src/ChainConnector.ts\<close> and of
  \<^verbatim>\<open>packages/chain-connector-evm/src/util.ts\<close>.

  The class \<^verbatim>\<open>ChainConnector\<close> has three private fields, each a JavaScript object used
  as a dictionary keyed by chain id. They are maps here. Everything the class calls but
  does not own is made explicit:
  \<^item> the chaindata provider (\<^verbatim>\<open>getChain\<close>), the \<^verbatim>\<open>WsProvider\<close> constructor and
    \<^verbatim>\<open>disconnect\<close> are fields of a record \<open>world\<close>;
  \<^item> \<^verbatim>\<open>Math.random()\<close> is an infinite stream of draws carried in the state;
  \<^item> every call out of the class (constructing or disconnecting a provider, setting or
    clearing an interval, logging) is appended to a list of effects in the state.
\<close>

type_synonym ChainId = string
type_synonym SocketUserId = int
type_synonym timer = nat

record Rpc =
  url :: string
  isHealthy :: bool

text \<open>Of a chain only \<^verbatim>\<open>rpcs\<close> is read; it may be missing (\<^verbatim>\<open>chain.rpcs || []\<close>).\<close>

record Chain =
  rpcs :: "Rpc list option"

text \<open>A \<^verbatim>\<open>WsProvider\<close> is what it was constructed from: \<^verbatim>\<open>new WsProvider(rpcs, autoConnectMs)\<close>.\<close>

record WsProvider =
  endpoints :: "string list"
  autoConnectMs :: nat

datatype error =
    ChainNotFound ChainId
  | NoHealthyRpcs ChainId
  | UserNotInList ChainId SocketUserId "SocketUserId list"
  | TypeError
  | TransportError string

datatype effect =
    NewWsProvider ChainId WsProvider
  | WsDisconnect ChainId WsProvider
  | SetInterval ChainId timer
  | ClearInterval "timer option"
  | LogError error
  | LogWarn string

record world =
  getChain :: "ChainId \<Rightarrow> Chain option"
  wsProviderThrows :: "string list \<Rightarrow> nat \<Rightarrow> string option"
  wsDisconnectThrows :: "WsProvider \<Rightarrow> string option"

record connector =
  socketConnections :: "ChainId \<rightharpoonup> WsProvider"
  socketKeepAliveIntervals :: "ChainId \<rightharpoonup> timer"
  socketUsers :: "ChainId \<rightharpoonup> SocketUserId list"
  random :: "real stream"
  nextTimer :: timer
  effects :: "effect list"

text \<open>
  The object after its constructor has run: three empty dictionaries. Timer handles are
  counted from 1, as the ids that \<^verbatim>\<open>setInterval\<close> returns in a browser are, so that a
  stored handle is never falsy.
\<close>

definition newChainConnector :: "real stream \<Rightarrow> connector" where
  "newChainConnector rs =
     \<lparr>socketConnections = Map.empty, socketKeepAliveIntervals = Map.empty,
      socketUsers = Map.empty, random = rs, nextTimer = 1, effects = []\<rparr>"

section \<open>Handle allocation\<close>

text \<open>
  \<^verbatim>\<open>Math.trunc\<close> rounds towards zero. \<^verbatim>\<open>getRandomId\<close> is
  \<^verbatim>\<open>Math.trunc(Math.random() * Math.pow(10, 8))\<close>; a draw of \<^verbatim>\<open>Math.random()\<close> is a
  real number here and the product is exact.
\<close>

definition Math_trunc :: "real \<Rightarrow> int" where
  "Math_trunc x = (if x < 0 then \<lceil>x\<rceil> else \<lfloor>x\<rfloor>)"

definition getRandomId :: "real \<Rightarrow> SocketUserId" where
  "getRandomId r = Math_trunc (r * 10 ^ 8)"

text \<open>
  The \<^verbatim>\<open>while (exclude.includes(id)) id = this.getRandomId()\<close> loop. It has no bound in
  the source, so it is a partial function: \<open>None\<close> is the loop that never ends.
\<close>

partial_function (option) getExclusiveRandomId_loop ::
  "SocketUserId list \<Rightarrow> SocketUserId \<Rightarrow> real stream \<Rightarrow> (SocketUserId \<times> real stream) option" where
  "getExclusiveRandomId_loop exclude ident rs =
     (if ident \<in> set exclude
      then getExclusiveRandomId_loop exclude (getRandomId (shd rs)) (stl rs)
      else Some (ident, rs))"

definition getExclusiveRandomId ::
  "SocketUserId list \<Rightarrow> real stream \<Rightarrow> (SocketUserId \<times> real stream) option" where
  "getExclusiveRandomId exclude rs =
     getExclusiveRandomId_loop exclude (getRandomId (shd rs)) (stl rs)"

text \<open>\<^verbatim>\<open>Math.random()\<close> returns a number in the half-open interval from 0 to 1.\<close>

definition unitDraws :: "real stream \<Rightarrow> bool" where
  "unitDraws rs = (\<forall>r \<in> sset rs. 0 \<le> r \<and> r < 1)"

section \<open>Endpoint ordering\<close>

text \<open>
  The three \<^verbatim>\<open>const\<close>s of \<^verbatim>\<open>connectChainSocket\<close>: healthy urls, unhealthy urls, both.
  \<open>chainRpcs\<close> is \<^verbatim>\<open>chain.rpcs || []\<close>.
\<close>

definition chainRpcs :: "Chain \<Rightarrow> Rpc list" where
  "chainRpcs chain = (case rpcs chain of None \<Rightarrow> [] | Some rs \<Rightarrow> rs)"

definition healthyRpcs :: "Chain \<Rightarrow> string list" where
  "healthyRpcs chain = map url (filter (\<lambda>r. isHealthy r) (chainRpcs chain))"

definition unhealthyRpcs :: "Chain \<Rightarrow> string list" where
  "unhealthyRpcs chain = map url (filter (\<lambda>r. \<not> isHealthy r) (chainRpcs chain))"

definition sortedRpcs :: "Chain \<Rightarrow> string list" where
  "sortedRpcs chain = healthyRpcs chain @ unhealthyRpcs chain"

text \<open>The candidates in the order of \<open>sortedRpcs\<close>, before their urls are taken.\<close>

definition sortedCandidates :: "Chain \<Rightarrow> Rpc list" where
  "sortedCandidates chain =
     filter (\<lambda>r. isHealthy r) (chainRpcs chain) @ filter (\<lambda>r. \<not> isHealthy r) (chainRpcs chain)"

section \<open>Error classification (EVM side)\<close>

text \<open>
  \<^verbatim>\<open>err\<close> is typed \<^verbatim>\<open>any\<close>; of an error object only \<^verbatim>\<open>err.reason\<close> is read. It is a
  string, or missing, or some other value.
\<close>

datatype jsvalue = JsUndefined | JsString string | JsNumber int

record rpcError =
  reason :: jsvalue

definition isUnhealthyRpcError :: "rpcError \<Rightarrow> bool" where
  "isUnhealthyRpcError err =
     (if reason err \<in> set [JsString ''processing response error''] then False else True)"

section \<open>The socket pool\<close>

text \<open>
  \<^verbatim>\<open>addSocketUser\<close>: the chain's list is created when it is not an array yet, a fresh id
  is drawn against it and pushed at its end.
\<close>

definition addSocketUser :: "ChainId \<Rightarrow> connector \<Rightarrow> (SocketUserId \<times> connector) option" where
  "addSocketUser chainId s =
     (let users = (case socketUsers s chainId of None \<Rightarrow> [] | Some us \<Rightarrow> us) in
      case getExclusiveRandomId users (random s) of
        None \<Rightarrow> None
      | Some (socketUserId, rs) \<Rightarrow>
          Some (socketUserId,
                s\<lparr>socketUsers := (socketUsers s)(chainId \<mapsto> users @ [socketUserId]),
                  random := rs\<rparr>))"

text \<open>
  \<^verbatim>\<open>removeSocketUser\<close>: \<^verbatim>\<open>indexOf\<close> on a list that was never created is a
  \<^verbatim>\<open>TypeError\<close>; an id that is not in the list is the explicit \<^verbatim>\<open>throw\<close>;
  \<^verbatim>\<open>splice(userIndex, 1)\<close> removes the first occurrence.
\<close>

definition removeSocketUser :: "ChainId \<Rightarrow> SocketUserId \<Rightarrow> connector \<Rightarrow> error + connector" where
  "removeSocketUser chainId socketUserId s =
     (case socketUsers s chainId of
        None \<Rightarrow> Inl TypeError
      | Some users \<Rightarrow>
          if socketUserId \<notin> set users then Inl (UserNotInList chainId socketUserId users)
          else Inr (s\<lparr>socketUsers := (socketUsers s)(chainId \<mapsto> remove1 socketUserId users)\<rparr>))"

text \<open>
  \<^verbatim>\<open>disconnectChainSocket\<close>. An exception of \<^verbatim>\<open>removeSocketUser\<close> leaves the method at
  once. An exception of \<^verbatim>\<open>disconnect()\<close> is caught and logged, and the two
  \<^verbatim>\<open>delete\<close>s run all the same. \<^verbatim>\<open>clearInterval\<close> is called with whatever the
  timer dictionary holds, also \<^verbatim>\<open>undefined\<close>.
\<close>

definition disconnectChainSocket ::
  "world \<Rightarrow> ChainId \<Rightarrow> SocketUserId \<Rightarrow> connector \<Rightarrow> (error + unit) \<times> connector" where
  "disconnectChainSocket w chainId socketUserId s =
     (case removeSocketUser chainId socketUserId s of
        Inl e \<Rightarrow> (Inl e, s)
      | Inr s1 \<Rightarrow>
          (case socketUsers s1 chainId of
             None \<Rightarrow> (Inl TypeError, s1)
           | Some users \<Rightarrow>
               if length users > 0 then (Inr (), s1)
               else
                 (case socketConnections s1 chainId of
                    None \<Rightarrow>
                      (Inr (),
                       s1\<lparr>effects := effects s1 @
                          [LogWarn (''Failed to disconnect socket: socket '' @ chainId @ '' not found'')]\<rparr>)
                  | Some ws \<Rightarrow>
                      (Inr (),
                       s1\<lparr>socketConnections := (socketConnections s1)(chainId := None),
                          socketKeepAliveIntervals := (socketKeepAliveIntervals s1)(chainId := None),
                          effects := effects s1 @ [WsDisconnect chainId ws] @
                            (case wsDisconnectThrows w ws of
                               None \<Rightarrow> []
                             | Some m \<Rightarrow> [LogWarn (''Error occurred disconnecting socket '' @ chainId)]) @
                            [ClearInterval (socketKeepAliveIntervals s1 chainId)]\<rparr>))))"

text \<open>
  \<^verbatim>\<open>connectChainSocket\<close>. The only \<^verbatim>\<open>await\<close> before the method returns is the one on
  \<^verbatim>\<open>getChain\<close>, which reads nothing of the pool, so the method is one step on the
  state. The result is \<open>None\<close> when the id loop never ends, and otherwise the thrown
  error or the returned pair, each with the state that is left.

  The keep-alive block at the end of the method runs up to its
  \<^verbatim>\<open>await this.#socketConnections[chainId].isReady\<close>; its guard cannot fire there, the
  provider having just been stored. What runs after the \<^verbatim>\<open>await\<close> is
  \<open>keepAliveSetup\<close> below.
\<close>

definition connectChainSocket ::
  "world \<Rightarrow> ChainId \<Rightarrow> connector \<Rightarrow> ((error + SocketUserId \<times> WsProvider) \<times> connector) option" where
  "connectChainSocket w chainId s =
     (case getChain w chainId of
        None \<Rightarrow> Some (Inl (ChainNotFound chainId), s)
      | Some chain \<Rightarrow>
          (case addSocketUser chainId s of
             None \<Rightarrow> None
           | Some (socketUserId, s1) \<Rightarrow>
               (case socketConnections s1 chainId of
                  Some ws \<Rightarrow> Some (Inr (socketUserId, ws), s1)
                | None \<Rightarrow>
                    (let rpcs = sortedRpcs chain in
                     if length rpcs \<noteq> 0 then
                       (case wsProviderThrows w rpcs 1000 of
                          Some m \<Rightarrow>
                            Some (Inl (TransportError m),
                                  s1\<lparr>effects := effects s1 @ [LogError (TransportError m)]\<rparr>)
                        | None \<Rightarrow>
                            (let ws = \<lparr>endpoints = rpcs, autoConnectMs = 1000\<rparr> in
                             Some (Inr (socketUserId, ws),
                                   s1\<lparr>socketConnections := (socketConnections s1)(chainId \<mapsto> ws),
                                      effects := effects s1 @ [NewWsProvider chainId ws]\<rparr>)))
                     else
                       Some (Inl (NoHealthyRpcs chainId),
                             s1\<lparr>effects := effects s1 @ [LogError (NoHealthyRpcs chainId)]\<rparr>)))))"

text \<open>
  What the keep-alive block does once \<^verbatim>\<open>isReady\<close> has resolved: an interval already
  stored for the chain is cleared, and a new one is set and stored.
\<close>

definition keepAliveSetup :: "ChainId \<Rightarrow> connector \<Rightarrow> connector" where
  "keepAliveSetup chainId s =
     (let cleared = (case socketKeepAliveIntervals s chainId of
                       None \<Rightarrow> []
                     | Some t \<Rightarrow> [ClearInterval (Some t)]) in
      s\<lparr>socketKeepAliveIntervals := (socketKeepAliveIntervals s)(chainId \<mapsto> nextTimer s),
        nextTimer := Suc (nextTimer s),
        effects := effects s @ cleared @ [SetInterval chainId (nextTimer s)]\<rparr>)"

section \<open>The request multiplexer\<close>

text \<open>
  \<^verbatim>\<open>send\<close>. The provider's answer to \<^verbatim>\<open>ws.send(method, params, isCacheable)\<close> is the
  parameter \<open>wsSend\<close>: a value, or the error it rejects with. \<^verbatim>\<open>waitForWs\<close> races two
  promises that do not reject and touches no field. While the method waits at its two
  \<^verbatim>\<open>await\<close>s other callers run; \<open>during\<close> is what they do to the pool in that time
  (the identity when there is none). An exception of \<^verbatim>\<open>disconnectChainSocket\<close> leaves
  the method in place of the answer.
\<close>

definition send ::
  "(WsProvider \<Rightarrow> string \<Rightarrow> 'p \<Rightarrow> bool option \<Rightarrow> error + 'r) \<Rightarrow> world \<Rightarrow> (connector \<Rightarrow> connector) \<Rightarrow>
   ChainId \<Rightarrow> string \<Rightarrow> 'p \<Rightarrow> bool option \<Rightarrow> connector \<Rightarrow> ((error + 'r) \<times> connector) option" where
  "send wsSend w during chainId method params isCacheable s =
     (case connectChainSocket w chainId s of
        None \<Rightarrow> None
      | Some (Inl e, s1) \<Rightarrow> Some (Inl e, s1)
      | Some (Inr (socketUserId, ws), s1) \<Rightarrow>
          (case wsSend ws method params isCacheable of
             Inl err \<Rightarrow>
               (case disconnectChainSocket w chainId socketUserId
                       ((during s1)\<lparr>effects := effects (during s1) @ [LogError err]\<rparr>) of
                  (Inl e, s2) \<Rightarrow> Some (Inl e, s2)
                | (Inr u, s2) \<Rightarrow> Some (Inl err, s2))
           | Inr response \<Rightarrow>
               (case disconnectChainSocket w chainId socketUserId (during s1) of
                  (Inl e, s2) \<Rightarrow> Some (Inl e, s2)
                | (Inr u, s2) \<Rightarrow> Some (Inr response, s2))))"

text \<open>
  \<^verbatim>\<open>subscribe\<close> returns a closure; here it is the record of what the closure has
  captured, and \<open>unsubscribe\<close> is its body.
\<close>

record 'i unsubscribeFn =
  unsubChainId :: ChainId
  unsubSocketUserId :: SocketUserId
  unsubWs :: WsProvider
  unsubResponseMethod :: string
  unsubMethod :: string
  unsubSubscriptionId :: 'i

definition subscribe ::
  "(WsProvider \<Rightarrow> string \<Rightarrow> string \<Rightarrow> 'p \<Rightarrow> error + 'i) \<Rightarrow> world \<Rightarrow> (connector \<Rightarrow> connector) \<Rightarrow>
   ChainId \<Rightarrow> string \<Rightarrow> string \<Rightarrow> string \<Rightarrow> 'p \<Rightarrow> connector \<Rightarrow>
   ((error + 'i unsubscribeFn) \<times> connector) option" where
  "subscribe wsSubscribe w during chainId subscribeMethod unsubscribeMethod responseMethod params s =
     (case connectChainSocket w chainId s of
        None \<Rightarrow> None
      | Some (Inl e, s1) \<Rightarrow> Some (Inl e, s1)
      | Some (Inr (socketUserId, ws), s1) \<Rightarrow>
          (case wsSubscribe ws responseMethod subscribeMethod params of
             Inl err \<Rightarrow>
               (case disconnectChainSocket w chainId socketUserId (during s1) of
                  (Inl e, s2) \<Rightarrow> Some (Inl e, s2)
                | (Inr u, s2) \<Rightarrow> Some (Inl err, s2))
           | Inr subscriptionId \<Rightarrow>
               Some (Inr \<lparr>unsubChainId = chainId, unsubSocketUserId = socketUserId, unsubWs = ws,
                          unsubResponseMethod = responseMethod, unsubMethod = unsubscribeMethod,
                          unsubSubscriptionId = subscriptionId\<rparr>, during s1)))"

text \<open>
  The closure's body: the provider's \<^verbatim>\<open>unsubscribe\<close> is awaited first, and its
  rejection leaves the closure before \<^verbatim>\<open>disconnectChainSocket\<close> is reached. The state
  is the pool at the time the closure is called.
\<close>

definition unsubscribe ::
  "(WsProvider \<Rightarrow> string \<Rightarrow> string \<Rightarrow> 'i \<Rightarrow> error + bool) \<Rightarrow> world \<Rightarrow> 'i unsubscribeFn \<Rightarrow> connector \<Rightarrow>
   (error + unit) \<times> connector" where
  "unsubscribe wsUnsubscribe w f s =
     (case wsUnsubscribe (unsubWs f) (unsubResponseMethod f) (unsubMethod f) (unsubSubscriptionId f) of
        Inl err \<Rightarrow> (Inl err, s)
      | Inr ack \<Rightarrow> disconnectChainSocket w (unsubChainId f) (unsubSocketUserId f) s)"

section \<open>Sequences of calls\<close>

text \<open>
  The pool's methods have no \<^verbatim>\<open>await\<close> between reading and writing a field, so on
  the one event loop any interleaving of callers is a sequence of whole calls. A call
  that throws leaves the state it has reached; a call that never returns ends the run.
\<close>

datatype call = Acquire ChainId | Release ChainId SocketUserId | KeepAliveReady ChainId

fun step :: "world \<Rightarrow> call \<Rightarrow> connector \<Rightarrow> connector option" where
  "step w (Acquire chainId) s = map_option snd (connectChainSocket w chainId s)"
| "step w (Release chainId socketUserId) s = Some (snd (disconnectChainSocket w chainId socketUserId s))"
| "step w (KeepAliveReady chainId) s = Some (keepAliveSetup chainId s)"

fun run :: "(world \<times> call) list \<Rightarrow> connector \<Rightarrow> connector option" where
  "run [] s = Some s"
| "run ((w, c) # cs) s = (case step w c s of None \<Rightarrow> None | Some s1 \<Rightarrow> run cs s1)"

text \<open>
  The transports of a chain that are alive after a list of effects: constructed, and
  \<^verbatim>\<open>disconnect()\<close> not yet called on them.
\<close>

fun liveTransports :: "ChainId \<Rightarrow> effect list \<Rightarrow> WsProvider list \<Rightarrow> WsProvider list" where
  "liveTransports chainId [] live = live"
| "liveTransports chainId (NewWsProvider c ws # es) live =
     liveTransports chainId es (if c = chainId then live @ [ws] else live)"
| "liveTransports chainId (WsDisconnect c ws # es) live =
     liveTransports chainId es (if c = chainId then remove1 ws live else live)"
| "liveTransports chainId (e # es) live = liveTransports chainId es live"

text \<open>
  One transport per chain, as a property of a state: the transports of a chain that are
  alive are the one that the pool holds for the chain, or none when it holds none.
\<close>

definition oneTransport :: "connector \<Rightarrow> bool" where
  "oneTransport s =
     (\<forall>c. liveTransports c (effects s) [] =
           (case socketConnections s c of None \<Rightarrow> [] | Some ws \<Rightarrow> [ws]))"

text \<open>The effects that a call has added: those of \<open>s'\<close> beyond those of \<open>s\<close>.\<close>

definition newEffects :: "connector \<Rightarrow> connector \<Rightarrow> effect list" where
  "newEffects s s' = drop (length (effects s)) (effects s')"

text \<open>The handles active for a chain: the chain's list, empty when it was never created.\<close>

definition activeUsers :: "connector \<Rightarrow> ChainId \<Rightarrow> SocketUserId list" where
  "activeUsers s chainId = (case socketUsers s chainId of None \<Rightarrow> [] | Some us \<Rightarrow> us)"

text \<open>
  Two properties of a state: no handle occurs twice in a chain's list, and every handle
  is an integer from 0 up to \<open>10 ^ 8\<close>.
\<close>

definition handlesDistinct :: "connector \<Rightarrow> bool" where
  "handlesDistinct s = (\<forall>c. distinct (activeUsers s c))"

definition handlesInRange :: "connector \<Rightarrow> bool" where
  "handlesInRange s = (\<forall>c. \<forall>h \<in> set (activeUsers s c). 0 \<le> h \<and> h < 10 ^ 8)"

section \<open>Endpoint probing (EVM side)\<close>

text \<open>
  \<^verbatim>\<open>parseInt(s, 16)\<close> after ECMAScript: leading white space is dropped, then a sign,
  then \<^verbatim>\<open>0x\<close> or \<^verbatim>\<open>0X\<close>; the longest run of hexadecimal digits that follows is the
  number, and no digit at all is \<^verbatim>\<open>NaN\<close>, here \<open>None\<close>. Strings are bytes, so of the
  white space only the ASCII characters are covered, and the value is exact where a
  JavaScript number rounds above \<open>2 ^ 53\<close>.
\<close>

definition isWhiteSpace :: "char \<Rightarrow> bool" where
  "isWhiteSpace c = (c \<in> set [CHR 0x09, CHR 0x0A, CHR 0x0B, CHR 0x0C, CHR 0x0D, CHR '' ''])"

definition hexDigit :: "char \<Rightarrow> nat option" where
  "hexDigit c =
     (let n = of_char c :: nat in
      if 48 \<le> n \<and> n \<le> 57 then Some (n - 48)
      else if 97 \<le> n \<and> n \<le> 102 then Some (n - 87)
      else if 65 \<le> n \<and> n \<le> 70 then Some (n - 55)
      else None)"

fun hexValue :: "nat \<Rightarrow> string \<Rightarrow> nat" where
  "hexValue acc [] = acc"
| "hexValue acc (c # cs) =
     (case hexDigit c of None \<Rightarrow> acc | Some d \<Rightarrow> hexValue (16 * acc + d) cs)"

definition parseInt16 :: "string \<Rightarrow> int option" where
  "parseInt16 inputString =
     (let S = dropWhile isWhiteSpace inputString;
          sign = (if S \<noteq> [] \<and> hd S = CHR ''-'' then - 1 else 1 :: int);
          S1 = (if S \<noteq> [] \<and> (hd S = CHR ''+'' \<or> hd S = CHR ''-'') then tl S else S);
          S2 = (if length S1 \<ge> 2 \<and> (take 2 S1 = ''0x'' \<or> take 2 S1 = ''0X'') then drop 2 S1 else S1);
          Z = takeWhile (\<lambda>c. hexDigit c \<noteq> None) S2
      in if Z = [] then None else Some (sign * int (hexValue 0 Z)))"

text \<open>
  What racing \<^verbatim>\<open>provider.send("eth_chainId", [])\<close> against \<^verbatim>\<open>throwAfter\<close> gives for a
  url: the answer as a string, the timeout's rejection, or any other exception of the
  \<^verbatim>\<open>try\<close> block.
\<close>

datatype rpcOutcome = Answered string | TimedOut | Threw

definition isHealthyRpc :: "(string \<Rightarrow> rpcOutcome) \<Rightarrow> string \<Rightarrow> int \<Rightarrow> bool" where
  "isHealthyRpc ethChainId rpcUrl chainId =
     (case ethChainId rpcUrl of
        Answered rpcChainId \<Rightarrow> parseInt16 rpcChainId = Some chainId
      | TimedOut \<Rightarrow> False
      | Threw \<Rightarrow> False)"

text \<open>Of \<^verbatim>\<open>ethers.providers.Network\<close> only \<^verbatim>\<open>network.chainId\<close> is read.\<close>

record Network =
  networkChainId :: int

text \<open>
  The \<^verbatim>\<open>for\<close> loop of \<^verbatim>\<open>getHealthyRpc\<close>. The network may answer the \<open>k\<close>-th probe of
  a call differently from an earlier one, so the outcomes are indexed by the number of
  probes made before. The second component lists the urls probed, in the order of the
  probes.
\<close>

fun getHealthyRpc_loop ::
  "(nat \<Rightarrow> string \<Rightarrow> rpcOutcome) \<Rightarrow> nat \<Rightarrow> string list \<Rightarrow> int \<Rightarrow> string option \<times> string list" where
  "getHealthyRpc_loop net k [] expected = (None, [])"
| "getHealthyRpc_loop net k (rpcUrl # rest) expected =
     (if isHealthyRpc (net k) rpcUrl expected then (Some rpcUrl, [rpcUrl])
      else (case getHealthyRpc_loop net (Suc k) rest expected of
              (found, probed) \<Rightarrow> (found, rpcUrl # probed)))"

definition getHealthyRpc ::
  "(nat \<Rightarrow> string \<Rightarrow> rpcOutcome) \<Rightarrow> string list \<Rightarrow> Network \<Rightarrow> string option \<times> string list" where
  "getHealthyRpc net rpcUrls network = getHealthyRpc_loop net 0 rpcUrls (networkChainId network)"

section \<open>Example inputs\<close>

text \<open>
  A directory of three chains: one with the four endpoints of the specification's
  example, one with no endpoint, one whose endpoints are all flagged unhealthy. No
  constructor and no \<^verbatim>\<open>disconnect()\<close> throws.
\<close>

definition polkadot :: Chain where
  "polkadot = \<lparr>rpcs = Some [\<lparr>url = ''A'', isHealthy = False\<rparr>, \<lparr>url = ''B'', isHealthy = True\<rparr>,
                            \<lparr>url = ''C'', isHealthy = True\<rparr>, \<lparr>url = ''D'', isHealthy = False\<rparr>]\<rparr>"

definition kusama :: Chain where
  "kusama = \<lparr>rpcs = Some []\<rparr>"

definition westend :: Chain where
  "westend = \<lparr>rpcs = Some [\<lparr>url = ''E'', isHealthy = False\<rparr>]\<rparr>"

definition directory :: world where
  "directory =
     \<lparr>getChain = [''polkadot'' \<mapsto> polkadot, ''kusama'' \<mapsto> kusama, ''westend'' \<mapsto> westend],
      wsProviderThrows = (\<lambda>rpcs ms. None),
      wsDisconnectThrows = (\<lambda>ws. None)\<rparr>"

definition draws :: "real stream" where
  "draws = shift [1 / 4, 1 / 4, 1 / 2] (sconst 0)"

definition polkadotWs :: WsProvider where
  "polkadotWs = \<lparr>endpoints = [''B'', ''C'', ''A'', ''D''], autoConnectMs = 1000\<rparr>"

text \<open>The pool when new, after one acquire of \<^verbatim>\<open>polkadot\<close>, and after a second one.\<close>

definition pool0 :: connector where
  "pool0 = newChainConnector draws"

definition pool1 :: connector where
  "pool1 =
     \<lparr>socketConnections = [''polkadot'' \<mapsto> polkadotWs], socketKeepAliveIntervals = Map.empty,
      socketUsers = [''polkadot'' \<mapsto> [25000000]], random = shift [1 / 4, 1 / 2] (sconst 0),
      nextTimer = 1, effects = [NewWsProvider ''polkadot'' polkadotWs]\<rparr>"

definition pool2 :: connector where
  "pool2 =
     \<lparr>socketConnections = [''polkadot'' \<mapsto> polkadotWs], socketKeepAliveIntervals = Map.empty,
      socketUsers = [''polkadot'' \<mapsto> [25000000, 50000000]], random = sconst 0,
      nextTimer = 1, effects = [NewWsProvider ''polkadot'' polkadotWs]\<rparr>"

definition westendWs :: WsProvider where
  "westendWs = \<lparr>endpoints = [''E''], autoConnectMs = 1000\<rparr>"

text \<open>\<open>pool1\<close> once its keep-alive interval is set, and after its one handle is released.\<close>

definition poolReady :: connector where
  "poolReady =
     \<lparr>socketConnections = [''polkadot'' \<mapsto> polkadotWs],
      socketKeepAliveIntervals = [''polkadot'' \<mapsto> 1],
      socketUsers = [''polkadot'' \<mapsto> [25000000]], random = shift [1 / 4, 1 / 2] (sconst 0),
      nextTimer = 2,
      effects = [NewWsProvider ''polkadot'' polkadotWs, SetInterval ''polkadot'' 1]\<rparr>"

definition poolClosed :: connector where
  "poolClosed =
     \<lparr>socketConnections = Map.empty, socketKeepAliveIntervals = Map.empty,
      socketUsers = [''polkadot'' \<mapsto> []], random = shift [1 / 4, 1 / 2] (sconst 0),
      nextTimer = 2,
      effects = [NewWsProvider ''polkadot'' polkadotWs, SetInterval ''polkadot'' 1,
                 WsDisconnect ''polkadot'' polkadotWs, ClearInterval (Some 1)]\<rparr>"

text \<open>\<open>pool2\<close> after the release of its first handle, and then of its second.\<close>

definition pool3 :: connector where
  "pool3 =
     \<lparr>socketConnections = [''polkadot'' \<mapsto> polkadotWs], socketKeepAliveIntervals = Map.empty,
      socketUsers = [''polkadot'' \<mapsto> [50000000]], random = sconst 0,
      nextTimer = 1, effects = [NewWsProvider ''polkadot'' polkadotWs]\<rparr>"

definition pool4 :: connector where
  "pool4 =
     \<lparr>socketConnections = Map.empty, socketKeepAliveIntervals = Map.empty,
      socketUsers = [''polkadot'' \<mapsto> []], random = sconst 0,
      nextTimer = 1,
      effects = [NewWsProvider ''polkadot'' polkadotWs, WsDisconnect ''polkadot'' polkadotWs,
                 ClearInterval None]\<rparr>"

text \<open>
  The new pool after an acquire of \<^verbatim>\<open>kusama\<close>, which has no endpoint, and after the
  release of the handle that this acquire has left; and after an acquire of
  \<^verbatim>\<open>westend\<close>.
\<close>

definition poolLeak :: connector where
  "poolLeak =
     \<lparr>socketConnections = Map.empty, socketKeepAliveIntervals = Map.empty,
      socketUsers = [''kusama'' \<mapsto> [25000000]], random = shift [1 / 4, 1 / 2] (sconst 0),
      nextTimer = 1, effects = [LogError (NoHealthyRpcs ''kusama'')]\<rparr>"

definition poolWarned :: connector where
  "poolWarned =
     \<lparr>socketConnections = Map.empty, socketKeepAliveIntervals = Map.empty,
      socketUsers = [''kusama'' \<mapsto> []], random = shift [1 / 4, 1 / 2] (sconst 0),
      nextTimer = 1,
      effects = [LogError (NoHealthyRpcs ''kusama''),
                 LogWarn ''Failed to disconnect socket: socket kusama not found'']\<rparr>"

definition poolWestend :: connector where
  "poolWestend =
     \<lparr>socketConnections = [''westend'' \<mapsto> westendWs], socketKeepAliveIntervals = Map.empty,
      socketUsers = [''westend'' \<mapsto> [25000000]], random = shift [1 / 4, 1 / 2] (sconst 0),
      nextTimer = 1, effects = [NewWsProvider ''westend'' westendWs]\<rparr>"

text \<open>
  The specification's probing example: of three urls only the second answers
  \<^verbatim>\<open>eth_chainId\<close> with \<^verbatim>\<open>0x5\<close>; the first times out, the third is another chain.
\<close>

definition exampleNet :: "nat \<Rightarrow> string \<Rightarrow> rpcOutcome" where
  "exampleNet k rpcUrl =
     (if rpcUrl = ''u1'' then TimedOut
      else if rpcUrl = ''u2'' then Answered ''0x5''
      else if rpcUrl = ''u3'' then Answered ''0x1''
      else Threw)"

text \<open>
  A provider that answers \<^verbatim>\<open>system_health\<close> and rejects any other request, accepts a
  subscription to new heads and rejects any other, and acknowledges every unsubscribe.
\<close>

definition exampleSend :: "WsProvider \<Rightarrow> string \<Rightarrow> string list \<Rightarrow> bool option \<Rightarrow> error + string" where
  "exampleSend ws method params isCacheable =
     (if method = ''system_health'' then Inr ''ok'' else Inl (TransportError ''rejected''))"

definition exampleSubscribe :: "WsProvider \<Rightarrow> string \<Rightarrow> string \<Rightarrow> string list \<Rightarrow> error + int" where
  "exampleSubscribe ws responseMethod subscribeMethod params =
     (if subscribeMethod = ''chain_subscribeNewHeads'' then Inr 7
      else Inl (TransportError ''rejected''))"

definition exampleUnsubscribe :: "WsProvider \<Rightarrow> string \<Rightarrow> string \<Rightarrow> int \<Rightarrow> error + bool" where
  "exampleUnsubscribe ws responseMethod unsubscribeMethod subscriptionId = Inr True"

text \<open>
  A provider that rejects every unsubscribe, and the closure that \<^verbatim>\<open>subscribe\<close> returns
  for new heads on \<^verbatim>\<open>polkadot\<close> in the new pool.
\<close>

definition rejectingUnsubscribe :: "WsProvider \<Rightarrow> string \<Rightarrow> string \<Rightarrow> int \<Rightarrow> error + bool" where
  "rejectingUnsubscribe ws responseMethod unsubscribeMethod subscriptionId =
     Inl (TransportError ''rejected'')"

definition newHeadsUnsubscribe :: "int unsubscribeFn" where
  "newHeadsUnsubscribe =
     \<lparr>unsubChainId = ''polkadot'', unsubSocketUserId = 25000000, unsubWs = polkadotWs,
      unsubResponseMethod = ''chain_newHead'', unsubMethod = ''chain_unsubscribeNewHeads'',
      unsubSubscriptionId = 7\<rparr>"

section \<open>Handle allocation: properties\<close>

lemma getRandomId_unit: "0 \<le> r \<Longrightarrow> r < 1 \<Longrightarrow> 0 \<le> getRandomId r \<and> getRandomId r < 10 ^ 8"
proof -
  assume r: "0 \<le> r" "r < 1"
  then have "0 \<le> r * 10 ^ 8" by simp
  moreover from r have "r * 10 ^ 8 < 10 ^ 8" by simp
  ultimately show ?thesis
    by (simp add: getRandomId_def Math_trunc_def floor_less_iff)
qed

lemma loop_fresh:
  assumes "getExclusiveRandomId_loop exclude ident rs = Some y"
  shows "fst y \<notin> set exclude"
  by (rule getExclusiveRandomId_loop.raw_induct
        [where P = "\<lambda>exclude ident rs y. fst y \<notin> set exclude", OF _ assms])
     (auto split: if_splits)

lemma loop_range:
  assumes "getExclusiveRandomId_loop exclude ident rs = Some y"
  shows "unitDraws rs \<longrightarrow> 0 \<le> ident \<and> ident < 10 ^ 8 \<longrightarrow>
         0 \<le> fst y \<and> fst y < 10 ^ 8 \<and> unitDraws (snd y)"
proof (rule getExclusiveRandomId_loop.raw_induct
        [where P = "\<lambda>exclude ident rs y. unitDraws rs \<longrightarrow> 0 \<le> ident \<and> ident < 10 ^ 8 \<longrightarrow>
         0 \<le> fst y \<and> fst y < 10 ^ 8 \<and> unitDraws (snd y)", OF _ assms])
  fix f exclude ident rs y
  assume IH: "\<And>exclude ident rs y. f exclude ident rs = Some y \<Longrightarrow>
          unitDraws rs \<longrightarrow> 0 \<le> ident \<and> ident < 10 ^ 8 \<longrightarrow>
          0 \<le> fst y \<and> fst y < 10 ^ 8 \<and> unitDraws (snd y)"
    and body: "(if ident \<in> set exclude then f exclude (getRandomId (shd rs)) (stl rs)
               else Some (ident, rs)) = Some y"
  show "unitDraws rs \<longrightarrow> 0 \<le> ident \<and> ident < 10 ^ 8 \<longrightarrow>
        0 \<le> fst y \<and> fst y < 10 ^ 8 \<and> unitDraws (snd y)"
  proof (intro impI)
    assume draws: "unitDraws rs" and ident: "0 \<le> ident \<and> ident < 10 ^ 8"
    show "0 \<le> fst y \<and> fst y < 10 ^ 8 \<and> unitDraws (snd y)"
    proof (cases "ident \<in> set exclude")
      case True
      with body have call: "f exclude (getRandomId (shd rs)) (stl rs) = Some y" by simp
      from draws have hd: "0 \<le> shd rs" "shd rs < 1"
        by (simp_all add: unitDraws_def shd_sset)
      from draws have tl: "unitDraws (stl rs)"
        by (auto simp: unitDraws_def dest: stl_sset)
      from hd have "0 \<le> getRandomId (shd rs) \<and> getRandomId (shd rs) < 10 ^ 8"
        by (rule getRandomId_unit)
      with IH [OF call] tl show ?thesis by simp
    next
      case False
      with body draws ident show ?thesis by auto
    qed
  qed
qed

lemma loop_returns:
  "getRandomId (rs !! n) \<notin> set exclude \<Longrightarrow>
   \<exists>y. getExclusiveRandomId_loop exclude ident rs = Some y"
proof (induction n arbitrary: ident rs)
  case 0
  then show ?case
    by (subst getExclusiveRandomId_loop.simps, subst getExclusiveRandomId_loop.simps) simp
next
  case (Suc n)
  then have "getRandomId (stl rs !! n) \<notin> set exclude" by simp
  then have "\<exists>y. getExclusiveRandomId_loop exclude (getRandomId (shd rs)) (stl rs) = Some y"
    by (rule Suc.IH)
  then show ?case
    by (subst getExclusiveRandomId_loop.simps) simp
qed

lemma getExclusiveRandomId_Some:
  assumes "getExclusiveRandomId exclude rs = Some (h, rs')"
  shows "h \<notin> set exclude" and "unitDraws rs \<Longrightarrow> 0 \<le> h \<and> h < 10 ^ 8 \<and> unitDraws rs'"
proof -
  from assms have loop:
    "getExclusiveRandomId_loop exclude (getRandomId (shd rs)) (stl rs) = Some (h, rs')"
    by (simp add: getExclusiveRandomId_def)
  from loop_fresh [OF loop] show "h \<notin> set exclude" by simp
  assume draws: "unitDraws rs"
  then have "0 \<le> shd rs" "shd rs < 1"
    by (simp_all add: unitDraws_def shd_sset)
  then have first: "0 \<le> getRandomId (shd rs) \<and> getRandomId (shd rs) < 10 ^ 8"
    by (rule getRandomId_unit)
  from draws have "unitDraws (stl rs)"
    by (auto simp: unitDraws_def dest: stl_sset)
  with loop_range [OF loop] first show "0 \<le> h \<and> h < 10 ^ 8 \<and> unitDraws rs'" by simp
qed

lemma getExclusiveRandomId_returns:
  assumes "getRandomId (rs !! n) \<notin> set exclude"
  shows "\<exists>y. getExclusiveRandomId exclude rs = Some y"
proof (cases n)
  case 0
  with assms show ?thesis
    by (simp add: getExclusiveRandomId_def getExclusiveRandomId_loop.simps)
next
  case (Suc m)
  with assms have "getRandomId (stl rs !! m) \<notin> set exclude" by simp
  then show ?thesis
    unfolding getExclusiveRandomId_def by (rule loop_returns)
qed

lemma addSocketUser_Some:
  assumes "addSocketUser c s = Some (h, s')"
  shows "getExclusiveRandomId (activeUsers s c) (random s) = Some (h, random s')"
    and "socketUsers s' = (socketUsers s)(c \<mapsto> activeUsers s c @ [h])"
    and "socketConnections s' = socketConnections s"
    and "socketKeepAliveIntervals s' = socketKeepAliveIntervals s"
    and "effects s' = effects s"
    and "nextTimer s' = nextTimer s"
  using assms by (auto simp: addSocketUser_def activeUsers_def Let_def split: option.splits)

lemma connectChainSocket_handle:
  assumes "connectChainSocket w c s = Some (Inr (h, ws), s')"
  shows "\<exists>s1. addSocketUser c s = Some (h, s1) \<and> socketUsers s' = socketUsers s1 \<and>
              random s' = random s1"
  using assms
  by (auto simp: connectChainSocket_def Let_def split: option.splits if_splits)

subsection \<open>Evaluation on the example inputs\<close>

lemma getRandomId_examples:
  "getRandomId (1 / 4) = 25000000" "getRandomId (1 / 2) = 50000000" "getRandomId 0 = 0"
  by (simp_all add: getRandomId_def Math_trunc_def)

lemma unitDraws_draws: "unitDraws draws"
  by (simp add: unitDraws_def draws_def)

lemma sortedRpcs_polkadot: "sortedRpcs polkadot = [''B'', ''C'', ''A'', ''D'']"
  by (simp add: sortedRpcs_def healthyRpcs_def unhealthyRpcs_def chainRpcs_def polkadot_def)

lemma acquire_pool0:
  "connectChainSocket directory ''polkadot'' pool0 = Some (Inr (25000000, polkadotWs), pool1)"
  by (simp add: connectChainSocket_def addSocketUser_def getExclusiveRandomId_def
      getExclusiveRandomId_loop.simps getRandomId_examples sortedRpcs_polkadot
      directory_def pool0_def pool1_def newChainConnector_def draws_def polkadotWs_def Let_def)

lemma acquire_pool1:
  "connectChainSocket directory ''polkadot'' pool1 = Some (Inr (50000000, polkadotWs), pool2)"
  by (simp add: connectChainSocket_def addSocketUser_def getExclusiveRandomId_def
      getExclusiveRandomId_loop.simps getRandomId_examples sortedRpcs_polkadot
      directory_def pool1_def pool2_def polkadotWs_def Let_def)

lemma draw_example: "getExclusiveRandomId [25000000] draws = Some (50000000, sconst 0)"
  by (simp add: getExclusiveRandomId_def getExclusiveRandomId_loop.simps getRandomId_examples
      draws_def)

section \<open>Endpoint ordering: properties\<close>

lemma sortedRpcs_map: "sortedRpcs chain = map url (sortedCandidates chain)"
  by (simp add: sortedRpcs_def healthyRpcs_def unhealthyRpcs_def sortedCandidates_def)

lemma mset_sortedCandidates: "mset (sortedCandidates chain) = mset (chainRpcs chain)"
  by (simp add: sortedCandidates_def)

lemma sortedCandidates_healthy_first:
  assumes "i < j" "j < length (sortedCandidates chain)" "isHealthy (sortedCandidates chain ! j)"
  shows "isHealthy (sortedCandidates chain ! i)"
proof -
  let ?hs = "filter (\<lambda>r. isHealthy r) (chainRpcs chain)"
  let ?us = "filter (\<lambda>r. \<not> isHealthy r) (chainRpcs chain)"
  have j: "j < length ?hs"
  proof (rule ccontr)
    assume "\<not> j < length ?hs"
    with assms(2) have k: "j - length ?hs < length ?us"
      and nth: "sortedCandidates chain ! j = ?us ! (j - length ?hs)"
      by (simp_all add: sortedCandidates_def nth_append)
    from k have "?us ! (j - length ?hs) \<in> set ?us" by (rule nth_mem)
    with nth assms(3) show False by simp
  qed
  with assms(1) have i: "i < length ?hs" by simp
  then have "?hs ! i \<in> set ?hs" by (rule nth_mem)
  with i show ?thesis by (simp add: sortedCandidates_def nth_append)
qed

lemma sortedCandidates_stable:
  "filter (\<lambda>r. isHealthy r) (sortedCandidates chain) = filter (\<lambda>r. isHealthy r) (chainRpcs chain)"
  "filter (\<lambda>r. \<not> isHealthy r) (sortedCandidates chain) = filter (\<lambda>r. \<not> isHealthy r) (chainRpcs chain)"
  by (simp_all add: sortedCandidates_def)

lemma connectChainSocket_new:
  assumes "getChain w c = Some chain" "socketConnections s c = None"
    "connectChainSocket w c s = Some (Inr (h, ws), s')"
  shows "ws = \<lparr>endpoints = sortedRpcs chain, autoConnectMs = 1000\<rparr>"
    and "effects s' = effects s @ [NewWsProvider c ws]"
    and "socketConnections s' = (socketConnections s)(c \<mapsto> ws)"
    and "sortedRpcs chain \<noteq> []"
    and "wsProviderThrows w (sortedRpcs chain) 1000 = None"
  using assms
  by (auto simp: connectChainSocket_def addSocketUser_def Let_def
           split: option.splits if_splits)

text \<open>
  Claim C4. The list given to the \<^verbatim>\<open>WsProvider\<close> constructor is the urls of the
  candidates rearranged so that no unhealthy candidate stands before a healthy one; the
  rearrangement is a permutation of the candidates that keeps the input order among the
  healthy ones and among the unhealthy ones. When \<^verbatim>\<open>connectChainSocket\<close> opens a
  transport, that list is the transport's endpoints.
\<close>

theorem sortedRpcs_healthy_first:
  "sortedRpcs chain = map url (sortedCandidates chain) \<and>
   mset (sortedCandidates chain) = mset (chainRpcs chain) \<and>
   mset (sortedRpcs chain) = mset (map url (chainRpcs chain)) \<and>
   (\<forall>i j. i < j \<and> j < length (sortedCandidates chain) \<and> isHealthy (sortedCandidates chain ! j) \<longrightarrow>
      isHealthy (sortedCandidates chain ! i)) \<and>
   filter (\<lambda>r. isHealthy r) (sortedCandidates chain) = filter (\<lambda>r. isHealthy r) (chainRpcs chain) \<and>
   filter (\<lambda>r. \<not> isHealthy r) (sortedCandidates chain) = filter (\<lambda>r. \<not> isHealthy r) (chainRpcs chain) \<and>
   (getChain w c = Some chain \<and> socketConnections s c = None \<and>
    connectChainSocket w c s = Some (Inr (h, ws), s') \<longrightarrow>
      endpoints ws = sortedRpcs chain \<and> effects s' = effects s @ [NewWsProvider c ws])"
proof (intro conjI allI impI)
  show "sortedRpcs chain = map url (sortedCandidates chain)" by (rule sortedRpcs_map)
  show "mset (sortedCandidates chain) = mset (chainRpcs chain)" by (rule mset_sortedCandidates)
  show "mset (sortedRpcs chain) = mset (map url (chainRpcs chain))"
    by (simp add: sortedRpcs_map mset_sortedCandidates)
  show "filter (\<lambda>r. isHealthy r) (sortedCandidates chain) = filter (\<lambda>r. isHealthy r) (chainRpcs chain)"
    by (rule sortedCandidates_stable)
  show "filter (\<lambda>r. \<not> isHealthy r) (sortedCandidates chain) = filter (\<lambda>r. \<not> isHealthy r) (chainRpcs chain)"
    by (rule sortedCandidates_stable)
next
  fix i j
  assume "i < j \<and> j < length (sortedCandidates chain) \<and> isHealthy (sortedCandidates chain ! j)"
  then show "isHealthy (sortedCandidates chain ! i)"
    by (blast intro: sortedCandidates_healthy_first)
next
  assume a: "getChain w c = Some chain \<and> socketConnections s c = None \<and>
    connectChainSocket w c s = Some (Inr (h, ws), s')"
  then have "ws = \<lparr>endpoints = sortedRpcs chain, autoConnectMs = 1000\<rparr>"
    by (blast dest: connectChainSocket_new(1))
  then show "endpoints ws = sortedRpcs chain" by simp
  from a show "effects s' = effects s @ [NewWsProvider c ws]"
    by (blast dest: connectChainSocket_new(2))
qed

lemma sortedCandidates_polkadot:
  "sortedCandidates polkadot =
     [\<lparr>url = ''B'', isHealthy = True\<rparr>, \<lparr>url = ''C'', isHealthy = True\<rparr>,
      \<lparr>url = ''A'', isHealthy = False\<rparr>, \<lparr>url = ''D'', isHealthy = False\<rparr>]"
  by (simp add: sortedCandidates_def chainRpcs_def polkadot_def)

theorem sortedRpcs_healthy_first_witness:
  "sortedRpcs polkadot = [''B'', ''C'', ''A'', ''D''] \<and>
   map url (chainRpcs polkadot) = [''A'', ''B'', ''C'', ''D''] \<and>
   mset (sortedRpcs polkadot) = mset (map url (chainRpcs polkadot)) \<and>
   (0 :: nat) < 1 \<and> 1 < length (sortedCandidates polkadot) \<and>
   isHealthy (sortedCandidates polkadot ! 1) \<and> isHealthy (sortedCandidates polkadot ! 0) \<and>
   getChain directory ''polkadot'' = Some polkadot \<and> socketConnections pool0 ''polkadot'' = None \<and>
   connectChainSocket directory ''polkadot'' pool0 = Some (Inr (25000000, polkadotWs), pool1) \<and>
   endpoints polkadotWs = sortedRpcs polkadot \<and>
   effects pool1 = effects pool0 @ [NewWsProvider ''polkadot'' polkadotWs]"
proof -
  note inst = sortedRpcs_healthy_first [where chain = polkadot and w = directory
      and c = "''polkadot''" and s = pool0 and h = 25000000 and ws = polkadotWs and s' = pool1]
  have dir: "getChain directory ''polkadot'' = Some polkadot"
    by (simp add: directory_def)
  have none: "socketConnections pool0 ''polkadot'' = None"
    by (simp add: pool0_def newChainConnector_def)
  have input: "map url (chainRpcs polkadot) = [''A'', ''B'', ''C'', ''D'']"
    by (simp add: chainRpcs_def polkadot_def)
  have second: "(0 :: nat) < 1 \<and> 1 < length (sortedCandidates polkadot) \<and>
      isHealthy (sortedCandidates polkadot ! 1)"
    by (simp add: sortedCandidates_polkadot)
  with inst have first: "isHealthy (sortedCandidates polkadot ! 0)" by blast
  from inst have perm: "mset (sortedRpcs polkadot) = mset (map url (chainRpcs polkadot))"
    by blast
  from inst dir none acquire_pool0 have link: "endpoints polkadotWs = sortedRpcs polkadot \<and>
      effects pool1 = effects pool0 @ [NewWsProvider ''polkadot'' polkadotWs]"
    by blast
  from sortedRpcs_polkadot input perm second first dir none acquire_pool0 link
  show ?thesis by blast
qed

section \<open>Error classification: properties\<close>

text \<open>
  Claim C10. \<^verbatim>\<open>isUnhealthyRpcError\<close> is false for an error whose \<^verbatim>\<open>reason\<close> is the
  string \<^verbatim>\<open>processing response error\<close>, and true for every other error object.
\<close>

theorem isUnhealthyRpcError_allow_list:
  "(reason err = JsString ''processing response error'' \<longrightarrow> isUnhealthyRpcError err = False) \<and>
   (reason err \<noteq> JsString ''processing response error'' \<longrightarrow> isUnhealthyRpcError err = True)"
  by (simp add: isUnhealthyRpcError_def)

theorem isUnhealthyRpcError_allow_list_witness:
  "isUnhealthyRpcError \<lparr>reason = JsString ''processing response error''\<rparr> = False \<and>
   JsString ''timeout'' \<noteq> JsString ''processing response error'' \<and>
   isUnhealthyRpcError \<lparr>reason = JsString ''timeout''\<rparr> = True \<and>
   JsUndefined \<noteq> JsString ''processing response error'' \<and>
   isUnhealthyRpcError \<lparr>reason = JsUndefined\<rparr> = True"
  using isUnhealthyRpcError_allow_list [of "\<lparr>reason = JsString ''processing response error''\<rparr>"]
    isUnhealthyRpcError_allow_list [of "\<lparr>reason = JsString ''timeout''\<rparr>"]
    isUnhealthyRpcError_allow_list [of "\<lparr>reason = JsUndefined\<rparr>"]
  by simp

section \<open>Endpoint probing: properties\<close>

lemma isHealthyRpc_iff:
  "isHealthyRpc eth u cid \<longleftrightarrow> (\<exists>answer. eth u = Answered answer \<and> parseInt16 answer = Some cid)"
  by (simp add: isHealthyRpc_def split: rpcOutcome.splits)

lemma getHealthyRpc_loop_result:
  "getHealthyRpc_loop net k urls cid = (found, probed) \<Longrightarrow>
   (case found of
      Some u \<Rightarrow> \<exists>i<length urls. u = urls ! i \<and> isHealthyRpc (net (k + i)) (urls ! i) cid \<and>
                 (\<forall>j<i. \<not> isHealthyRpc (net (k + j)) (urls ! j) cid) \<and> probed = take (Suc i) urls
    | None \<Rightarrow> (\<forall>j<length urls. \<not> isHealthyRpc (net (k + j)) (urls ! j) cid) \<and> probed = urls)"
proof (induction urls arbitrary: k found probed)
  case Nil
  then show ?case by auto
next
  case (Cons u urls)
  show ?case
  proof (cases "isHealthyRpc (net k) u cid")
    case True
    with Cons.prems have "found = Some u" "probed = [u]" by simp_all
    with True show ?thesis by auto
  next
    case False
    obtain found' probed' where rest: "getHealthyRpc_loop net (Suc k) urls cid = (found', probed')"
      by (cases "getHealthyRpc_loop net (Suc k) urls cid")
    with False Cons.prems have eq: "found = found'" "probed = u # probed'" by simp_all
    note IH = Cons.IH [OF rest]
    show ?thesis
    proof (cases found')
      case None
      with IH have all: "\<forall>j<length urls. \<not> isHealthyRpc (net (Suc k + j)) (urls ! j) cid"
        and p: "probed' = urls" by simp_all
      have "\<forall>j<length (u # urls). \<not> isHealthyRpc (net (k + j)) ((u # urls) ! j) cid"
      proof (intro allI impI)
        fix j assume "j < length (u # urls)"
        with all False show "\<not> isHealthyRpc (net (k + j)) ((u # urls) ! j) cid"
          by (cases j) auto
      qed
      with None eq p show ?thesis by simp
    next
      case (Some v)
      with IH obtain i where i: "i < length urls" "v = urls ! i"
        "isHealthyRpc (net (Suc k + i)) (urls ! i) cid"
        "\<forall>j<i. \<not> isHealthyRpc (net (Suc k + j)) (urls ! j) cid" "probed' = take (Suc i) urls"
        by auto
      have "\<forall>j<Suc i. \<not> isHealthyRpc (net (k + j)) ((u # urls) ! j) cid"
      proof (intro allI impI)
        fix j assume "j < Suc i"
        with i(4) False show "\<not> isHealthyRpc (net (k + j)) ((u # urls) ! j) cid"
          by (cases j) auto
      qed
      with i Some eq show ?thesis
        by (auto intro!: exI [of _ "Suc i"])
    qed
  qed
qed

text \<open>
  Claim C9. A probe is healthy exactly when the endpoint answered before the timeout and
  the answer parses to the expected chain id; a timeout or an exception gives unhealthy
  and is not propagated. \<^verbatim>\<open>getHealthyRpc\<close> returns a url exactly when that url is the
  first in the list whose probe is healthy, having probed the urls up to it in the order
  of the list and none after it; it returns nothing exactly when every probe fails.
\<close>

theorem getHealthyRpc_first_healthy:
  "(isHealthyRpc eth u cid \<longleftrightarrow>
      (\<exists>answer. eth u = Answered answer \<and> parseInt16 answer = Some cid)) \<and>
   (eth u = TimedOut \<or> eth u = Threw \<longrightarrow> \<not> isHealthyRpc eth u cid) \<and>
   (getHealthyRpc net urls network = (Some v, probed) \<longleftrightarrow>
      (\<exists>i<length urls. v = urls ! i \<and>
         isHealthyRpc (net i) (urls ! i) (networkChainId network) \<and>
         (\<forall>j<i. \<not> isHealthyRpc (net j) (urls ! j) (networkChainId network)) \<and>
         probed = take (Suc i) urls)) \<and>
   (getHealthyRpc net urls network = (None, probed) \<longleftrightarrow>
      (\<forall>j<length urls. \<not> isHealthyRpc (net j) (urls ! j) (networkChainId network)) \<and>
      probed = urls)"
proof -
  let ?cid = "networkChainId network"
  let ?H = "\<lambda>j. isHealthyRpc (net j) (urls ! j) ?cid"
  obtain found probed' where run: "getHealthyRpc_loop net 0 urls ?cid = (found, probed')"
    by (cases "getHealthyRpc_loop net 0 urls ?cid")
  note res = getHealthyRpc_loop_result [OF run]
  have some: "getHealthyRpc net urls network = (Some v, probed) \<longleftrightarrow>
      (\<exists>i<length urls. v = urls ! i \<and> ?H i \<and> (\<forall>j<i. \<not> ?H j) \<and> probed = take (Suc i) urls)"
  proof
    assume "getHealthyRpc net urls network = (Some v, probed)"
    with run have "found = Some v" "probed' = probed" by (simp_all add: getHealthyRpc_def)
    with res show "\<exists>i<length urls. v = urls ! i \<and> ?H i \<and> (\<forall>j<i. \<not> ?H j) \<and> probed = take (Suc i) urls"
      by simp
  next
    assume "\<exists>i<length urls. v = urls ! i \<and> ?H i \<and> (\<forall>j<i. \<not> ?H j) \<and> probed = take (Suc i) urls"
    then obtain i where i: "i < length urls" "v = urls ! i" "?H i" "\<forall>j<i. \<not> ?H j"
      "probed = take (Suc i) urls" by blast
    show "getHealthyRpc net urls network = (Some v, probed)"
    proof (cases found)
      case None
      with res i(1,3) show ?thesis by simp
    next
      case (Some v')
      with res obtain i' where i': "i' < length urls" "v' = urls ! i'" "?H i'" "\<forall>j<i'. \<not> ?H j"
        "probed' = take (Suc i') urls" by auto
      from i(3,4) i'(3,4) have "i' = i" by (meson nat_neq_iff)
      with i i' Some run show ?thesis by (simp add: getHealthyRpc_def)
    qed
  qed
  have none: "getHealthyRpc net urls network = (None, probed) \<longleftrightarrow>
      (\<forall>j<length urls. \<not> ?H j) \<and> probed = urls"
  proof
    assume "getHealthyRpc net urls network = (None, probed)"
    with run have "found = None" "probed' = probed" by (simp_all add: getHealthyRpc_def)
    with res show "(\<forall>j<length urls. \<not> ?H j) \<and> probed = urls" by simp
  next
    assume a: "(\<forall>j<length urls. \<not> ?H j) \<and> probed = urls"
    show "getHealthyRpc net urls network = (None, probed)"
    proof (cases found)
      case None
      with res a run show ?thesis by (simp add: getHealthyRpc_def)
    next
      case (Some v')
      with res a show ?thesis by auto
    qed
  qed
  from some none show ?thesis
    by (simp add: isHealthyRpc_iff)
qed

lemma parseInt16_examples:
  "parseInt16 ''0x5'' = Some 5" "parseInt16 ''0x1'' = Some 1" "parseInt16 ''0x89'' = Some 137"
  "parseInt16 ''  -0Xff'' = Some (- 255)" "parseInt16 ''zz'' = None" "parseInt16 ''0x'' = None"
  "parseInt16 ''1g'' = Some 1"
  by (simp_all add: parseInt16_def hexDigit_def isWhiteSpace_def Let_def)

lemma exampleNet_health:
  "\<not> isHealthyRpc (exampleNet k) ''u1'' 5" "isHealthyRpc (exampleNet k) ''u2'' 5"
  "\<not> isHealthyRpc (exampleNet k) ''u3'' 5"
  by (simp_all add: isHealthyRpc_def exampleNet_def parseInt16_examples)

theorem getHealthyRpc_first_healthy_witness:
  "exampleNet 1 ''u2'' = Answered ''0x5'' \<and> parseInt16 ''0x5'' = Some 5 \<and>
   isHealthyRpc (exampleNet 1) ''u2'' 5 \<and>
   exampleNet 0 ''u1'' = TimedOut \<and> \<not> isHealthyRpc (exampleNet 0) ''u1'' 5 \<and>
   getHealthyRpc exampleNet [''u1'', ''u2'', ''u3''] \<lparr>networkChainId = 5\<rparr> =
     (Some ''u2'', [''u1'', ''u2'']) \<and>
   getHealthyRpc exampleNet [''u1'', ''u3''] \<lparr>networkChainId = 5\<rparr> = (None, [''u1'', ''u3''])"
proof -
  let ?n = "\<lparr>networkChainId = 5\<rparr>"
  have answer: "exampleNet 1 ''u2'' = Answered ''0x5'' \<and> parseInt16 ''0x5'' = Some 5"
    by (simp add: exampleNet_def parseInt16_examples)
  with getHealthyRpc_first_healthy [where eth = "exampleNet 1" and u = "''u2''" and cid = 5]
  have probe: "isHealthyRpc (exampleNet 1) ''u2'' 5" by blast
  have timeout: "exampleNet 0 ''u1'' = TimedOut"
    by (simp add: exampleNet_def)
  with getHealthyRpc_first_healthy [where eth = "exampleNet 0" and u = "''u1''" and cid = 5]
  have noprobe: "\<not> isHealthyRpc (exampleNet 0) ''u1'' 5" by blast
  have "\<exists>i<length [''u1'', ''u2'', ''u3''].
      ''u2'' = [''u1'', ''u2'', ''u3''] ! i \<and>
      isHealthyRpc (exampleNet i) ([''u1'', ''u2'', ''u3''] ! i) (networkChainId ?n) \<and>
      (\<forall>j<i. \<not> isHealthyRpc (exampleNet j) ([''u1'', ''u2'', ''u3''] ! j) (networkChainId ?n)) \<and>
      [''u1'', ''u2''] = take (Suc i) [''u1'', ''u2'', ''u3'']"
    by (rule exI [of _ 1]) (simp add: exampleNet_health)
  with getHealthyRpc_first_healthy [where net = exampleNet and urls = "[''u1'', ''u2'', ''u3'']"
      and network = ?n and v = "''u2''" and probed = "[''u1'', ''u2'']"]
  have found: "getHealthyRpc exampleNet [''u1'', ''u2'', ''u3''] ?n = (Some ''u2'', [''u1'', ''u2''])"
    by blast
  have "\<forall>j<length [''u1'', ''u3''].
      \<not> isHealthyRpc (exampleNet j) ([''u1'', ''u3''] ! j) (networkChainId ?n)"
    by (simp add: less_Suc_eq exampleNet_health)
  with getHealthyRpc_first_healthy [where net = exampleNet and urls = "[''u1'', ''u3'']"
      and network = ?n and probed = "[''u1'', ''u3'']"]
  have absent: "getHealthyRpc exampleNet [''u1'', ''u3''] ?n = (None, [''u1'', ''u3''])"
    by blast
  from answer probe timeout noprobe found absent show ?thesis by blast
qed

section \<open>The socket pool: properties\<close>

subsection \<open>The two methods, case by case\<close>

lemma disconnectChainSocket_cases:
  "disconnectChainSocket w c h s =
    (case socketUsers s c of
       None \<Rightarrow> (Inl TypeError, s)
     | Some us \<Rightarrow>
         if h \<notin> set us then (Inl (UserNotInList c h us), s)
         else if remove1 h us \<noteq> [] then (Inr (), s\<lparr>socketUsers := (socketUsers s)(c \<mapsto> remove1 h us)\<rparr>)
         else (case socketConnections s c of
                 None \<Rightarrow>
                   (Inr (), s\<lparr>socketUsers := (socketUsers s)(c \<mapsto> []),
                              effects := effects s @
                                [LogWarn (''Failed to disconnect socket: socket '' @ c @ '' not found'')]\<rparr>)
               | Some ws \<Rightarrow>
                   (Inr (), s\<lparr>socketUsers := (socketUsers s)(c \<mapsto> []),
                              socketConnections := (socketConnections s)(c := None),
                              socketKeepAliveIntervals := (socketKeepAliveIntervals s)(c := None),
                              effects := effects s @ [WsDisconnect c ws] @
                                (case wsDisconnectThrows w ws of
                                   None \<Rightarrow> []
                                 | Some m \<Rightarrow> [LogWarn (''Error occurred disconnecting socket '' @ c)]) @
                                [ClearInterval (socketKeepAliveIntervals s c)]\<rparr>)))"
  by (simp add: disconnectChainSocket_def removeSocketUser_def split: option.splits)

lemma disconnectChainSocket_member:
  assumes "h \<in> set (activeUsers t c)"
  shows "\<exists>t'. disconnectChainSocket w c h t = (Inr (), t') \<and>
              activeUsers t' c = remove1 h (activeUsers t c)"
proof -
  from assms obtain us where us: "socketUsers t c = Some us" "h \<in> set us"
    by (cases "socketUsers t c") (auto simp: activeUsers_def)
  then show ?thesis
    by (auto simp: disconnectChainSocket_cases activeUsers_def split: option.splits)
qed

lemma disconnectChainSocket_logged:
  assumes "h \<in> set (activeUsers t c)"
  shows "\<exists>t'. disconnectChainSocket w c h (t\<lparr>effects := effects t @ es\<rparr>) = (Inr (), t') \<and>
              activeUsers t' c = remove1 h (activeUsers t c)"
proof -
  have "activeUsers (t\<lparr>effects := effects t @ es\<rparr>) c = activeUsers t c"
    by (simp add: activeUsers_def)
  with assms disconnectChainSocket_member [of h "t\<lparr>effects := effects t @ es\<rparr>" c w]
  show ?thesis by simp
qed

lemma disconnectChainSocket_absent:
  assumes "h \<notin> set (activeUsers t c)"
  shows "fst (disconnectChainSocket w c h t) \<noteq> Inr () \<and> snd (disconnectChainSocket w c h t) = t"
  using assms
  by (cases "socketUsers t c") (simp_all add: disconnectChainSocket_cases activeUsers_def)

lemma connectChainSocket_users:
  assumes "connectChainSocket w c s = Some (Inr (h, ws), s1)"
  shows "activeUsers s1 c = activeUsers s c @ [h]" and "h \<notin> set (activeUsers s c)"
    and "remove1 h (activeUsers s1 c) = activeUsers s c"
proof -
  from connectChainSocket_handle [OF assms] obtain s0 where
    s0: "addSocketUser c s = Some (h, s0)" "socketUsers s1 = socketUsers s0" by blast
  note g = addSocketUser_Some [OF s0(1)]
  from getExclusiveRandomId_Some(1) [OF g(1)] show fresh: "h \<notin> set (activeUsers s c)" .
  from g(2) s0(2) show app: "activeUsers s1 c = activeUsers s c @ [h]"
    by (simp add: activeUsers_def)
  from fresh app show "remove1 h (activeUsers s1 c) = activeUsers s c"
    by (simp add: remove1_append)
qed

lemma connectChainSocket_existing:
  assumes "socketConnections t c = Some ws" and "getChain w c = Some chain"
    and "connectChainSocket w c t = Some (r, t')"
  shows "\<exists>h. r = Inr (h, ws) \<and> h \<notin> set (activeUsers t c)"
    and "effects t' = effects t" and "socketConnections t' = socketConnections t"
proof -
  from assms obtain h t1 where t1: "addSocketUser c t = Some (h, t1)"
    by (auto simp: connectChainSocket_def split: option.splits)
  note g = addSocketUser_Some [OF t1]
  from g(3) assms(1) have "socketConnections t1 c = Some ws" by simp
  with assms(2,3) t1 have r: "r = Inr (h, ws)" "t' = t1"
    by (simp_all add: connectChainSocket_def)
  from getExclusiveRandomId_Some(1) [OF g(1)] r
  show "\<exists>h. r = Inr (h, ws) \<and> h \<notin> set (activeUsers t c)" by blast
  from r g show "effects t' = effects t" "socketConnections t' = socketConnections t"
    by simp_all
qed

lemma connectChainSocket_failed:
  assumes "connectChainSocket w c s = Some (Inl e, s')"
  shows "socketConnections s' = socketConnections s"
    and "effects s' = effects s \<or> effects s' = effects s @ [LogError e]"
  using assms
  by (auto simp: connectChainSocket_def addSocketUser_def Let_def
        split: option.splits if_splits)

lemma connectChainSocket_returned:
  assumes "connectChainSocket w c s = Some (Inr (h, ws), s')"
  shows "\<exists>chain. getChain w c = Some chain"
  using assms
  by (cases "getChain w c") (simp_all add: connectChainSocket_def)

lemma sortedRpcs_empty: "sortedRpcs chain = [] \<longleftrightarrow> chainRpcs chain = []"
proof
  assume "sortedRpcs chain = []"
  then have "filter (\<lambda>r. isHealthy r) (chainRpcs chain) = []"
    and "filter (\<lambda>r. \<not> isHealthy r) (chainRpcs chain) = []"
    by (simp_all add: sortedRpcs_def healthyRpcs_def unhealthyRpcs_def)
  then have "\<forall>r \<in> set (chainRpcs chain). False"
    by (metis (mono_tags, lifting) filter_empty_conv)
  then show "chainRpcs chain = []" by (cases "chainRpcs chain") auto
next
  assume "chainRpcs chain = []"
  then show "sortedRpcs chain = []"
    by (simp add: sortedRpcs_def healthyRpcs_def unhealthyRpcs_def)
qed

lemma addSocketUser_returns:
  assumes "getRandomId (random s !! n) \<notin> set (activeUsers s c)"
  shows "\<exists>h s1. addSocketUser c s = Some (h, s1)"
proof -
  from getExclusiveRandomId_returns [OF assms]
  obtain y where "getExclusiveRandomId (activeUsers s c) (random s) = Some y" by blast
  then show ?thesis
    by (cases y) (simp add: addSocketUser_def activeUsers_def)
qed

lemma connectChainSocket_failure_state:
  assumes "connectChainSocket w c s = Some (Inl e, s')" and "e \<noteq> ChainNotFound c"
  shows "\<exists>h. activeUsers s' c = activeUsers s c @ [h] \<and> h \<notin> set (activeUsers s c)"
    and "socketConnections s' c = None"
proof -
  from assms obtain h s1 where s1: "addSocketUser c s = Some (h, s1)"
    and u: "socketUsers s' = socketUsers s1" and n: "socketConnections s' c = None"
    by (auto simp: connectChainSocket_def Let_def split: option.splits if_splits)
  note g = addSocketUser_Some [OF s1]
  from getExclusiveRandomId_Some(1) [OF g(1)] g(2) u
  show "\<exists>h. activeUsers s' c = activeUsers s c @ [h] \<and> h \<notin> set (activeUsers s c)"
    by (auto simp: activeUsers_def)
  from n show "socketConnections s' c = None" .
qed

subsection \<open>Evaluation on the example inputs\<close>

lemma keepAlive_pool1: "keepAliveSetup ''polkadot'' pool1 = poolReady"
  by (simp add: keepAliveSetup_def pool1_def poolReady_def)

lemma release_poolReady:
  "disconnectChainSocket directory ''polkadot'' 25000000 poolReady = (Inr (), poolClosed)"
  by (simp add: disconnectChainSocket_cases poolReady_def poolClosed_def directory_def)

lemma release_poolClosed:
  "disconnectChainSocket directory ''polkadot'' 25000000 poolClosed =
     (Inl (UserNotInList ''polkadot'' 25000000 []), poolClosed)"
  by (simp add: disconnectChainSocket_cases poolClosed_def)

lemma release_pool2:
  "disconnectChainSocket directory ''polkadot'' 25000000 pool2 = (Inr (), pool3)"
  by (simp add: disconnectChainSocket_cases pool2_def pool3_def)

lemma release_pool3:
  "disconnectChainSocket directory ''polkadot'' 50000000 pool3 = (Inr (), pool4)"
  by (simp add: disconnectChainSocket_cases pool3_def pool4_def directory_def)

lemma sortedRpcs_kusama: "sortedRpcs kusama = []"
  by (simp add: sortedRpcs_def healthyRpcs_def unhealthyRpcs_def chainRpcs_def kusama_def)

lemma sortedRpcs_westend: "sortedRpcs westend = [''E'']"
  by (simp add: sortedRpcs_def healthyRpcs_def unhealthyRpcs_def chainRpcs_def westend_def)

lemma acquire_kusama:
  "connectChainSocket directory ''kusama'' pool0 = Some (Inl (NoHealthyRpcs ''kusama''), poolLeak)"
  by (simp add: connectChainSocket_def addSocketUser_def getExclusiveRandomId_def
      getExclusiveRandomId_loop.simps getRandomId_examples sortedRpcs_kusama
      directory_def pool0_def poolLeak_def newChainConnector_def draws_def Let_def)

lemma acquire_westend:
  "connectChainSocket directory ''westend'' pool0 = Some (Inr (25000000, westendWs), poolWestend)"
  by (simp add: connectChainSocket_def addSocketUser_def getExclusiveRandomId_def
      getExclusiveRandomId_loop.simps getRandomId_examples sortedRpcs_westend
      directory_def pool0_def poolWestend_def newChainConnector_def draws_def westendWs_def Let_def)

lemma release_poolLeak:
  "disconnectChainSocket directory ''kusama'' 25000000 poolLeak = (Inr (), poolWarned)"
  by (simp add: disconnectChainSocket_cases poolLeak_def poolWarned_def)

lemma release_unknown:
  "disconnectChainSocket directory ''kusama'' 25000000 pool0 = (Inl TypeError, pool0)"
  by (simp add: disconnectChainSocket_cases pool0_def newChainConnector_def)

lemma pool0_first_draw: "getRandomId (random pool0 !! 0) \<notin> set (activeUsers pool0 c)"
  by (simp add: pool0_def newChainConnector_def activeUsers_def)

subsection \<open>One transport per chain\<close>

lemma liveTransports_append:
  "liveTransports c (es @ es') live = liveTransports c es' (liveTransports c es live)"
  by (induction c es live rule: liveTransports.induct) simp_all

lemma oneTransport_new: "oneTransport (newChainConnector rs)"
  by (simp add: oneTransport_def newChainConnector_def)

lemma oneTransport_same:
  assumes "oneTransport s" and "socketConnections s' = socketConnections s"
    and "\<forall>k. liveTransports k (effects s') [] = liveTransports k (effects s) []"
  shows "oneTransport s'"
  using assms by (simp add: oneTransport_def)

lemma connectChainSocket_oneTransport:
  assumes "connectChainSocket w c s = Some (r, s')" and "oneTransport s"
  shows "oneTransport s'"
proof (cases r)
  case (Inl e)
  with assms(1) have f: "connectChainSocket w c s = Some (Inl e, s')" by simp
  from connectChainSocket_failed(2) [OF f]
  have "\<forall>k. liveTransports k (effects s') [] = liveTransports k (effects s) []"
    by (auto simp: liveTransports_append)
  with assms(2) connectChainSocket_failed(1) [OF f] show ?thesis
    by (rule oneTransport_same)
next
  case (Inr hws)
  obtain h ws where "hws = (h, ws)" by (cases hws)
  with Inr assms(1) have ok: "connectChainSocket w c s = Some (Inr (h, ws), s')" by simp
  from connectChainSocket_returned [OF ok] obtain chain where
    chain: "getChain w c = Some chain" by blast
  show ?thesis
  proof (cases "socketConnections s c")
    case None
    note new = connectChainSocket_new [OF chain None ok]
    from assms(2) None have "liveTransports c (effects s) [] = []"
      by (simp add: oneTransport_def)
    with assms(2) new(2,3) show ?thesis
      by (simp add: oneTransport_def liveTransports_append)
  next
    case (Some ws0)
    note old = connectChainSocket_existing [OF Some chain ok]
    from old(2) have "\<forall>k. liveTransports k (effects s') [] = liveTransports k (effects s) []"
      by simp
    with assms(2) old(3) show ?thesis
      by (rule oneTransport_same)
  qed
qed

lemma disconnectChainSocket_oneTransport:
  assumes "oneTransport s"
  shows "oneTransport (snd (disconnectChainSocket w c h s))"
proof (cases "socketUsers s c")
  case None
  with assms show ?thesis by (simp add: disconnectChainSocket_cases)
next
  case (Some us)
  show ?thesis
  proof (cases "h \<in> set us \<and> remove1 h us = []")
    case False
    with Some assms show ?thesis
      by (auto simp: disconnectChainSocket_cases oneTransport_def)
  next
    case True
    show ?thesis
    proof (cases "socketConnections s c")
      case None
      with Some True assms show ?thesis
        by (simp add: disconnectChainSocket_cases oneTransport_def liveTransports_append)
    next
      case (Some ws)
      with assms have "liveTransports c (effects s) [] = [ws]"
        by (simp add: oneTransport_def)
      with Some \<open>socketUsers s c = Some us\<close> True assms show ?thesis
        by (simp add: disconnectChainSocket_cases oneTransport_def liveTransports_append
              split: option.splits)
    qed
  qed
qed

lemma keepAliveSetup_oneTransport:
  assumes "oneTransport s"
  shows "oneTransport (keepAliveSetup c s)"
  using assms
  by (simp add: keepAliveSetup_def oneTransport_def liveTransports_append Let_def
        split: option.splits)

lemma step_oneTransport:
  assumes "step w call s = Some s'" and "oneTransport s"
  shows "oneTransport s'"
proof (cases call)
  case (Acquire c)
  with assms(1) obtain r where "connectChainSocket w c s = Some (r, s')"
    by (cases "connectChainSocket w c s") auto
  then show ?thesis using assms(2) by (rule connectChainSocket_oneTransport)
next
  case (Release c h)
  with assms show ?thesis by (auto intro: disconnectChainSocket_oneTransport)
next
  case (KeepAliveReady c)
  with assms show ?thesis by (auto intro: keepAliveSetup_oneTransport)
qed

lemma run_oneTransport:
  "run calls s = Some s' \<Longrightarrow> oneTransport s \<Longrightarrow> oneTransport s'"
proof (induction calls arbitrary: s)
  case Nil
  then show ?case by simp
next
  case (Cons wc calls)
  obtain w call where wc: "wc = (w, call)" by (cases wc)
  with Cons.prems(1) obtain s1 where s1: "step w call s = Some s1" "run calls s1 = Some s'"
    by (cases "step w call s") auto
  from step_oneTransport [OF s1(1) Cons.prems(2)] have "oneTransport s1" .
  with s1(2) show ?case by (rule Cons.IH)
qed

lemma run_two_acquires:
  "run [(directory, Acquire ''polkadot''), (directory, Acquire ''polkadot'')] pool0 = Some pool2"
  by (simp add: acquire_pool0 acquire_pool1)

lemma run_two_releases:
  "run [(directory, Acquire ''polkadot''), (directory, Acquire ''polkadot''),
        (directory, Release ''polkadot'' 25000000), (directory, Release ''polkadot'' 50000000)] pool0 =
     Some pool4"
  by (simp add: acquire_pool0 acquire_pool1 release_pool2 release_pool3)

text \<open>
  Claim C1. After any sequence of acquire, release and keep-alive calls on a new pool, on
  any chains and whatever the directory and the providers do, the transports of a chain
  that are alive are the one the pool holds for the chain, so there is at most one. An
  acquire for a chain that has a connection entry returns the transport of that entry
  with a handle that was not active, adds no effect, so constructs no transport, and
  leaves the connections as they were.
\<close>

theorem one_transport_per_chain:
  "(run calls (newChainConnector rs) = Some s \<longrightarrow>
      liveTransports c (effects s) [] =
        (case socketConnections s c of None \<Rightarrow> [] | Some ws \<Rightarrow> [ws]) \<and>
      length (liveTransports c (effects s) []) \<le> 1) \<and>
   (socketConnections t c = Some ws \<and> getChain w c = Some chain \<and>
    connectChainSocket w c t = Some (r, t') \<longrightarrow>
      (\<exists>h. r = Inr (h, ws) \<and> h \<notin> set (activeUsers t c)) \<and>
      newEffects t t' = [] \<and> socketConnections t' = socketConnections t)"
proof (intro conjI impI)
  assume "run calls (newChainConnector rs) = Some s"
  then have "oneTransport s"
    using oneTransport_new by (rule run_oneTransport)
  then show live: "liveTransports c (effects s) [] =
        (case socketConnections s c of None \<Rightarrow> [] | Some ws \<Rightarrow> [ws])"
    by (simp add: oneTransport_def)
  then show "length (liveTransports c (effects s) []) \<le> 1"
    by (simp split: option.splits)
next
  assume a: "socketConnections t c = Some ws \<and> getChain w c = Some chain \<and>
    connectChainSocket w c t = Some (r, t')"
  then show "\<exists>h. r = Inr (h, ws) \<and> h \<notin> set (activeUsers t c)"
    by (blast dest: connectChainSocket_existing(1))
  from a have "effects t' = effects t"
    by (blast dest: connectChainSocket_existing(2))
  then show "newEffects t t' = []" by (simp add: newEffects_def)
  from a show "socketConnections t' = socketConnections t"
    by (blast dest: connectChainSocket_existing(3))
qed

theorem one_transport_per_chain_witness:
  "run [(directory, Acquire ''polkadot''), (directory, Acquire ''polkadot'')]
     (newChainConnector draws) = Some pool2 \<and>
   liveTransports ''polkadot'' (effects pool2) [] = [polkadotWs] \<and>
   socketConnections pool2 ''polkadot'' = Some polkadotWs \<and>
   run [(directory, Acquire ''polkadot''), (directory, Acquire ''polkadot''),
        (directory, Release ''polkadot'' 25000000), (directory, Release ''polkadot'' 50000000)]
     (newChainConnector draws) = Some pool4 \<and>
   liveTransports ''polkadot'' (effects pool4) [] = [] \<and>
   socketConnections pool4 ''polkadot'' = None \<and>
   socketConnections pool1 ''polkadot'' = Some polkadotWs \<and>
   getChain directory ''polkadot'' = Some polkadot \<and>
   connectChainSocket directory ''polkadot'' pool1 = Some (Inr (50000000, polkadotWs), pool2) \<and>
   50000000 \<notin> set (activeUsers pool1 ''polkadot'') \<and>
   newEffects pool1 pool2 = [] \<and> socketConnections pool2 = socketConnections pool1"
proof -
  have r2: "run [(directory, Acquire ''polkadot''), (directory, Acquire ''polkadot'')]
     (newChainConnector draws) = Some pool2"
    using run_two_acquires by (simp add: pool0_def)
  have c2: "socketConnections pool2 ''polkadot'' = Some polkadotWs"
    by (simp add: pool2_def)
  from one_transport_per_chain [where calls = "[(directory, Acquire ''polkadot''),
      (directory, Acquire ''polkadot'')]" and rs = draws and s = pool2 and c = "''polkadot''",
      THEN conjunct1, THEN mp, OF r2] c2
  have l2: "liveTransports ''polkadot'' (effects pool2) [] = [polkadotWs]" by simp
  have r4: "run [(directory, Acquire ''polkadot''), (directory, Acquire ''polkadot''),
        (directory, Release ''polkadot'' 25000000), (directory, Release ''polkadot'' 50000000)]
     (newChainConnector draws) = Some pool4"
    using run_two_releases by (simp add: pool0_def)
  have c4: "socketConnections pool4 ''polkadot'' = None"
    by (simp add: pool4_def)
  from one_transport_per_chain [where calls = "[(directory, Acquire ''polkadot''),
      (directory, Acquire ''polkadot''), (directory, Release ''polkadot'' 25000000),
      (directory, Release ''polkadot'' 50000000)]" and rs = draws and s = pool4
      and c = "''polkadot''", THEN conjunct1, THEN mp, OF r4] c4
  have l4: "liveTransports ''polkadot'' (effects pool4) [] = []" by simp
  have pre: "socketConnections pool1 ''polkadot'' = Some polkadotWs \<and>
      getChain directory ''polkadot'' = Some polkadot \<and>
      connectChainSocket directory ''polkadot'' pool1 = Some (Inr (50000000, polkadotWs), pool2)"
    using acquire_pool1 by (simp add: pool1_def directory_def)
  from one_transport_per_chain [where t = pool1 and c = "''polkadot''" and ws = polkadotWs
      and w = directory and chain = polkadot and r = "Inr (50000000, polkadotWs)" and t' = pool2,
      THEN conjunct2, THEN mp, OF pre]
  have post: "50000000 \<notin> set (activeUsers pool1 ''polkadot'') \<and>
      newEffects pool1 pool2 = [] \<and> socketConnections pool2 = socketConnections pool1"
    by simp
  from r2 l2 c2 r4 l4 c4 pre post show ?thesis by blast
qed

subsection \<open>Handles over a run\<close>

lemma activeUsers_same:
  "socketUsers s' = socketUsers s \<Longrightarrow> activeUsers s' k = activeUsers s k"
  by (simp add: activeUsers_def)

lemma activeUsers_upd:
  "socketUsers s' = (socketUsers s)(c \<mapsto> us) \<Longrightarrow>
   activeUsers s' k = (if k = c then us else activeUsers s k)"
  by (simp add: activeUsers_def)

lemma keepAliveSetup_socketUsers:
  "socketUsers (keepAliveSetup c s) = socketUsers s" "random (keepAliveSetup c s) = random s"
  by (simp_all add: keepAliveSetup_def Let_def)

lemma connectChainSocket_socketUsers:
  assumes "connectChainSocket w c s = Some (r, s')"
  shows "(socketUsers s' = socketUsers s \<and> random s' = random s) \<or>
         (\<exists>h. getExclusiveRandomId (activeUsers s c) (random s) = Some (h, random s') \<and>
              socketUsers s' = (socketUsers s)(c \<mapsto> activeUsers s c @ [h]))"
proof (cases "getChain w c")
  case None
  with assms show ?thesis by (simp add: connectChainSocket_def)
next
  case (Some chain)
  with assms obtain h s1 where s1: "addSocketUser c s = Some (h, s1)"
    and same: "socketUsers s' = socketUsers s1" "random s' = random s1"
    by (auto simp: connectChainSocket_def Let_def split: option.splits if_splits)
  note g = addSocketUser_Some [OF s1]
  from g(1,2) same show ?thesis by auto
qed

lemma disconnectChainSocket_socketUsers:
  "socketUsers (snd (disconnectChainSocket w c h s)) = socketUsers s \<or>
   socketUsers (snd (disconnectChainSocket w c h s)) =
     (socketUsers s)(c \<mapsto> remove1 h (activeUsers s c))"
  by (cases "socketUsers s c")
     (auto simp: disconnectChainSocket_cases activeUsers_def split: option.splits)

lemma disconnectChainSocket_random:
  "random (snd (disconnectChainSocket w c h s)) = random s"
  by (cases "socketUsers s c")
     (auto simp: disconnectChainSocket_cases split: option.splits)

lemma step_socketUsers:
  assumes "step w call s = Some s'"
  shows "(socketUsers s' = socketUsers s \<and> random s' = random s) \<or>
         (\<exists>c h. getExclusiveRandomId (activeUsers s c) (random s) = Some (h, random s') \<and>
                socketUsers s' = (socketUsers s)(c \<mapsto> activeUsers s c @ [h])) \<or>
         (\<exists>c h. socketUsers s' = (socketUsers s)(c \<mapsto> remove1 h (activeUsers s c)) \<and>
                random s' = random s)"
proof (cases call)
  case (Acquire c)
  with assms obtain r where "connectChainSocket w c s = Some (r, s')"
    by (cases "connectChainSocket w c s") auto
  from connectChainSocket_socketUsers [OF this] show ?thesis by blast
next
  case (Release c h)
  with assms have "s' = snd (disconnectChainSocket w c h s)" by simp
  with disconnectChainSocket_socketUsers [of w c h s] disconnectChainSocket_random [of w c h s]
  show ?thesis by auto
next
  case (KeepAliveReady c)
  with assms show ?thesis by (auto simp: keepAliveSetup_socketUsers)
qed

lemma step_handles:
  assumes "step w call s = Some s'"
    and "handlesDistinct s"
  shows "handlesDistinct s'"
proof -
  from step_socketUsers [OF assms(1)] consider
    (same) "socketUsers s' = socketUsers s"
    | (added) c h where "getExclusiveRandomId (activeUsers s c) (random s) = Some (h, random s')"
        "socketUsers s' = (socketUsers s)(c \<mapsto> activeUsers s c @ [h])"
    | (removed) c h where "socketUsers s' = (socketUsers s)(c \<mapsto> remove1 h (activeUsers s c))"
    by blast
  then show ?thesis
  proof cases
    case same
    from assms(2) show ?thesis
      by (simp add: handlesDistinct_def activeUsers_same [OF same])
  next
    case (added c h)
    from getExclusiveRandomId_Some(1) [OF added(1)] have "h \<notin> set (activeUsers s c)" .
    moreover from assms(2) have "distinct (activeUsers s c)" by (simp add: handlesDistinct_def)
    ultimately have "distinct (activeUsers s c @ [h])" by simp
    with assms(2) show ?thesis
      by (simp add: handlesDistinct_def activeUsers_upd [OF added(2)])
  next
    case (removed c h)
    from assms(2) have "distinct (remove1 h (activeUsers s c))"
      by (simp add: handlesDistinct_def)
    with assms(2) show ?thesis
      by (simp add: handlesDistinct_def activeUsers_upd [OF removed])
  qed
qed

lemma step_range:
  assumes "step w call s = Some s'"
    and "unitDraws (random s) \<and> handlesInRange s"
  shows "unitDraws (random s') \<and> handlesInRange s'"
proof -
  from step_socketUsers [OF assms(1)] consider
    (same) "socketUsers s' = socketUsers s" "random s' = random s"
    | (added) c h where "getExclusiveRandomId (activeUsers s c) (random s) = Some (h, random s')"
        "socketUsers s' = (socketUsers s)(c \<mapsto> activeUsers s c @ [h])"
    | (removed) c h where "socketUsers s' = (socketUsers s)(c \<mapsto> remove1 h (activeUsers s c))"
        "random s' = random s"
    by blast
  then show ?thesis
  proof cases
    case same
    from assms(2) same(2) show ?thesis
      by (simp add: handlesInRange_def activeUsers_same [OF same(1)])
  next
    case (added c h)
    from getExclusiveRandomId_Some(2) [OF added(1)] assms(2)
    have "0 \<le> h \<and> h < 10 ^ 8 \<and> unitDraws (random s')" by simp
    with assms(2) show ?thesis
      by (simp add: handlesInRange_def activeUsers_upd [OF added(2)])
  next
    case (removed c h)
    from assms(2) have "\<forall>x \<in> set (remove1 h (activeUsers s c)). 0 \<le> x \<and> x < 10 ^ 8"
      by (auto simp: handlesInRange_def dest: notin_set_remove1)
    with assms(2) removed(2) show ?thesis
      by (simp add: handlesInRange_def activeUsers_upd [OF removed(1)])
  qed
qed

lemma run_handles:
  "run calls s = Some s' \<Longrightarrow> handlesDistinct s \<Longrightarrow> handlesDistinct s'"
proof (induction calls arbitrary: s)
  case Nil
  then show ?case by simp
next
  case (Cons wc calls)
  obtain w call where wc: "wc = (w, call)" by (cases wc)
  with Cons.prems(1) obtain s1 where s1: "step w call s = Some s1" "run calls s1 = Some s'"
    by (cases "step w call s") auto
  from step_handles [OF s1(1) Cons.prems(2)] have "handlesDistinct s1" .
  with s1(2) show ?case by (rule Cons.IH)
qed

lemma run_range:
  "run calls s = Some s' \<Longrightarrow> unitDraws (random s) \<and> handlesInRange s \<Longrightarrow>
   unitDraws (random s') \<and> handlesInRange s'"
proof (induction calls arbitrary: s)
  case Nil
  then show ?case by simp
next
  case (Cons wc calls)
  obtain w call where wc: "wc = (w, call)" by (cases wc)
  with Cons.prems(1) obtain s1 where s1: "step w call s = Some s1" "run calls s1 = Some s'"
    by (cases "step w call s") auto
  from step_range [OF s1(1) Cons.prems(2)] have "unitDraws (random s1) \<and> handlesInRange s1" .
  with s1(2) show ?case by (rule Cons.IH)
qed

lemma new_handles: "handlesDistinct (newChainConnector rs)" "handlesInRange (newChainConnector rs)"
  by (simp_all add: handlesDistinct_def handlesInRange_def activeUsers_def newChainConnector_def)

lemma run_new_handles:
  assumes "run calls (newChainConnector rs) = Some s"
  shows "distinct (activeUsers s c)"
    and "unitDraws rs \<Longrightarrow> \<forall>h \<in> set (activeUsers s c). 0 \<le> h \<and> h \<le> 10 ^ 8"
proof -
  from run_handles [OF assms new_handles(1)] show "distinct (activeUsers s c)"
    by (simp add: handlesDistinct_def)
  assume "unitDraws rs"
  then have "unitDraws (random (newChainConnector rs)) \<and> handlesInRange (newChainConnector rs)"
    by (simp add: new_handles(2)) (simp add: newChainConnector_def)
  from run_range [OF assms this] have "handlesInRange s" by simp
  then show "\<forall>h \<in> set (activeUsers s c). 0 \<le> h \<and> h \<le> 10 ^ 8"
    by (fastforce simp: handlesInRange_def)
qed

subsection \<open>Fresh handles\<close>

text \<open>
  Claim C8. A handle that the generate-and-check loop returns is never a member of the
  exclude list it was given, and with draws of \<^verbatim>\<open>Math.random()\<close> between 0 and 1 it is an
  integer from 0 to \<open>10 ^ 8\<close>. So a handle that \<^verbatim>\<open>connectChainSocket\<close> returns differs
  from every handle active for the chain when it was allocated, and it is appended to
  them. The loop does return whenever some later draw gives an id outside the list.
  After any sequence of calls on a new pool no handle occurs twice in a chain's list, and
  every handle in it is in that range.
\<close>

theorem getExclusiveRandomId_fresh:
  "(getExclusiveRandomId exclude rs = Some (h, rs') \<longrightarrow>
      h \<notin> set exclude \<and> (unitDraws rs \<longrightarrow> 0 \<le> h \<and> h \<le> 10 ^ 8)) \<and>
   (connectChainSocket w c s = Some (Inr (h, ws), s') \<longrightarrow>
      h \<notin> set (activeUsers s c) \<and>
      activeUsers s' c = activeUsers s c @ [h] \<and>
      (unitDraws (random s) \<longrightarrow> 0 \<le> h \<and> h \<le> 10 ^ 8)) \<and>
   ((\<exists>n. getRandomId (rs !! n) \<notin> set exclude) \<longrightarrow>
      (\<exists>y. getExclusiveRandomId exclude rs = Some y)) \<and>
   (run calls (newChainConnector seed) = Some t \<longrightarrow>
      distinct (activeUsers t k) \<and>
      (unitDraws seed \<longrightarrow> (\<forall>x \<in> set (activeUsers t k). 0 \<le> x \<and> x \<le> 10 ^ 8)))"
proof (intro conjI impI)
  assume a: "getExclusiveRandomId exclude rs = Some (h, rs')"
  from getExclusiveRandomId_Some(1) [OF a] show "h \<notin> set exclude" .
  assume "unitDraws rs"
  with getExclusiveRandomId_Some(2) [OF a] show "0 \<le> h" "h \<le> 10 ^ 8" by simp_all
next
  assume "\<exists>n. getRandomId (rs !! n) \<notin> set exclude"
  then show "\<exists>y. getExclusiveRandomId exclude rs = Some y"
    by (auto dest: getExclusiveRandomId_returns)
next
  assume r: "run calls (newChainConnector seed) = Some t"
  from run_new_handles(1) [OF r] show "distinct (activeUsers t k)" .
  assume "unitDraws seed"
  with run_new_handles(2) [OF r] show "\<forall>x \<in> set (activeUsers t k). 0 \<le> x \<and> x \<le> 10 ^ 8" .
next
  assume c: "connectChainSocket w c s = Some (Inr (h, ws), s')"
  from connectChainSocket_handle [OF c] obtain s1 where
    s1: "addSocketUser c s = Some (h, s1)" "socketUsers s' = socketUsers s1" by blast
  note g = addSocketUser_Some [OF s1(1)]
  from getExclusiveRandomId_Some(1) [OF g(1)] show "h \<notin> set (activeUsers s c)" .
  from g(2) s1(2) show "activeUsers s' c = activeUsers s c @ [h]"
    by (simp add: activeUsers_def)
  assume "unitDraws (random s)"
  with getExclusiveRandomId_Some(2) [OF g(1)] show "0 \<le> h" "h \<le> 10 ^ 8" by simp_all
qed

theorem getExclusiveRandomId_fresh_witness:
  "getExclusiveRandomId [25000000] draws = Some (50000000, sconst 0) \<and>
   unitDraws draws \<and>
   (50000000 :: int) \<notin> set [25000000] \<and> (0 :: int) \<le> 50000000 \<and> (50000000 :: int) \<le> 10 ^ 8 \<and>
   connectChainSocket directory ''polkadot'' pool1 = Some (Inr (50000000, polkadotWs), pool2) \<and>
   unitDraws (random pool1) \<and>
   50000000 \<notin> set (activeUsers pool1 ''polkadot'') \<and>
   activeUsers pool2 ''polkadot'' = activeUsers pool1 ''polkadot'' @ [50000000] \<and>
   getRandomId (draws !! 2) \<notin> set [25000000] \<and>
   (\<exists>y. getExclusiveRandomId [25000000] draws = Some y) \<and>
   run [(directory, Acquire ''polkadot''), (directory, Acquire ''polkadot'')]
     (newChainConnector draws) = Some pool2 \<and>
   activeUsers pool2 ''polkadot'' = [25000000, 50000000] \<and>
   distinct (activeUsers pool2 ''polkadot'')"
proof -
  have two: "run [(directory, Acquire ''polkadot''), (directory, Acquire ''polkadot'')]
     (newChainConnector draws) = Some pool2"
    using run_two_acquires by (simp add: pool0_def)
  have after: "activeUsers pool2 ''polkadot'' = [25000000, 50000000]"
    by (simp add: activeUsers_def pool2_def)
  have later: "getRandomId (draws !! 2) \<notin> set [25000000]"
    by (simp add: draws_def numeral_2_eq_2 getRandomId_examples)
  have before: "activeUsers pool1 ''polkadot'' = [25000000]" "random pool1 = stl draws"
    by (simp_all add: activeUsers_def pool1_def draws_def)
  have "unitDraws (stl draws)"
    by (simp add: unitDraws_def draws_def)
  with later before two after show ?thesis
    using getExclusiveRandomId_fresh [where exclude = "[25000000]" and rs = draws
        and h = 50000000 and rs' = "sconst 0" and w = directory and c = "''polkadot''"
        and s = pool1 and ws = polkadotWs and s' = pool2
        and calls = "[(directory, Acquire ''polkadot''), (directory, Acquire ''polkadot'')]"
        and seed = draws and t = pool2 and k = "''polkadot''"]
      draw_example acquire_pool1 unitDraws_draws
    by simp
qed

subsection \<open>Release and teardown\<close>

text \<open>
  Claim C3. For a chain that has a transport, a release calls \<^verbatim>\<open>disconnect()\<close> on it
  exactly when the release removes the handle and the chain's list is empty afterwards.
  Then the connection entry and the keep-alive entry of the chain are deleted,
  \<^verbatim>\<open>clearInterval\<close> is called with the chain's timer, and nothing else changes. A release
  that leaves the list non-empty changes the list only, and one that throws changes
  nothing.
\<close>

theorem disconnectChainSocket_teardown:
  assumes "socketConnections s c = Some ws" and "disconnectChainSocket w c h s = (r, s')"
  shows "(WsDisconnect c ws \<in> set (newEffects s s') \<longleftrightarrow> r = Inr () \<and> socketUsers s' c = Some []) \<and>
         (r = Inr () \<and> socketUsers s' c = Some [] \<longrightarrow>
            s' = s\<lparr>socketUsers := (socketUsers s)(c \<mapsto> []),
                   socketConnections := (socketConnections s)(c := None),
                   socketKeepAliveIntervals := (socketKeepAliveIntervals s)(c := None),
                   effects := effects s @ [WsDisconnect c ws] @
                     (case wsDisconnectThrows w ws of
                        None \<Rightarrow> []
                      | Some m \<Rightarrow> [LogWarn (''Error occurred disconnecting socket '' @ c)]) @
                     [ClearInterval (socketKeepAliveIntervals s c)]\<rparr>) \<and>
         (r = Inr () \<and> socketUsers s' c \<noteq> Some [] \<longrightarrow>
            s' = s\<lparr>socketUsers := (socketUsers s)(c \<mapsto> remove1 h (activeUsers s c))\<rparr>) \<and>
         (r \<noteq> Inr () \<longrightarrow> s' = s)"
  using assms
  by (auto simp: disconnectChainSocket_cases newEffects_def activeUsers_def
           split: option.splits if_splits)

theorem disconnectChainSocket_teardown_witness:
  "socketConnections poolReady ''polkadot'' = Some polkadotWs \<and>
   disconnectChainSocket directory ''polkadot'' 25000000 poolReady = (Inr (), poolClosed) \<and>
   socketUsers poolClosed ''polkadot'' = Some [] \<and>
   WsDisconnect ''polkadot'' polkadotWs \<in> set (newEffects poolReady poolClosed) \<and>
   socketConnections poolClosed ''polkadot'' = None \<and>
   socketKeepAliveIntervals poolReady ''polkadot'' = Some 1 \<and>
   socketKeepAliveIntervals poolClosed ''polkadot'' = None \<and>
   socketConnections pool2 ''polkadot'' = Some polkadotWs \<and>
   disconnectChainSocket directory ''polkadot'' 25000000 pool2 = (Inr (), pool3) \<and>
   socketUsers pool3 ''polkadot'' \<noteq> Some [] \<and>
   WsDisconnect ''polkadot'' polkadotWs \<notin> set (newEffects pool2 pool3) \<and>
   pool3 = pool2\<lparr>socketUsers := (socketUsers pool2)(''polkadot'' \<mapsto> remove1 25000000 (activeUsers pool2 ''polkadot''))\<rparr>"
proof -
  have c1: "socketConnections poolReady ''polkadot'' = Some polkadotWs"
    by (simp add: poolReady_def)
  have u1: "socketUsers poolClosed ''polkadot'' = Some []"
    by (simp add: poolClosed_def)
  note t1 = disconnectChainSocket_teardown [OF c1 release_poolReady]
  from t1 u1 have d1: "WsDisconnect ''polkadot'' polkadotWs \<in> set (newEffects poolReady poolClosed)"
    by blast
  have k1: "socketConnections poolClosed ''polkadot'' = None"
    "socketKeepAliveIntervals poolReady ''polkadot'' = Some 1"
    "socketKeepAliveIntervals poolClosed ''polkadot'' = None"
    by (simp_all add: poolClosed_def poolReady_def)
  have c2: "socketConnections pool2 ''polkadot'' = Some polkadotWs"
    by (simp add: pool2_def)
  have u2: "socketUsers pool3 ''polkadot'' \<noteq> Some []"
    by (simp add: pool3_def)
  note t2 = disconnectChainSocket_teardown [OF c2 release_pool2]
  from t2 u2 have d2: "WsDisconnect ''polkadot'' polkadotWs \<notin> set (newEffects pool2 pool3)"
    by blast
  from t2 u2 have e2: "pool3 = pool2\<lparr>socketUsers := (socketUsers pool2)(''polkadot'' \<mapsto>
      remove1 25000000 (activeUsers pool2 ''polkadot''))\<rparr>"
    by blast
  from c1 release_poolReady u1 d1 k1 c2 release_pool2 u2 d2 e2 show ?thesis by blast
qed

subsection \<open>Release of a handle that is not active\<close>

text \<open>
  Claim C6 does not hold as it is written: a second release of the same handle raises.
  The pool is acquired once, its keep-alive is set, the handle is released and the
  chain's entry is torn down; the release of the same handle once more returns the error
  of the explicit \<^verbatim>\<open>throw\<close> in \<^verbatim>\<open>removeSocketUser\<close>.
\<close>

theorem release_twice_raises:
  "connectChainSocket directory ''polkadot'' pool0 = Some (Inr (25000000, polkadotWs), pool1) \<and>
   keepAliveSetup ''polkadot'' pool1 = poolReady \<and>
   disconnectChainSocket directory ''polkadot'' 25000000 poolReady = (Inr (), poolClosed) \<and>
   socketConnections poolClosed ''polkadot'' = None \<and>
   disconnectChainSocket directory ''polkadot'' 25000000 poolClosed =
     (Inl (UserNotInList ''polkadot'' 25000000 []), poolClosed)"
  using acquire_pool0 keepAlive_pool1 release_poolReady release_poolClosed
  by (simp add: poolClosed_def)

text \<open>
  Claim C6, amended. A release of a handle that is not in the chain's list, such as one
  released before or any handle of a chain whose list is empty or was never created,
  raises an error and leaves the pool as it was; when the list exists the error is the
  one of the explicit \<^verbatim>\<open>throw\<close> in \<^verbatim>\<open>removeSocketUser\<close>. A release of a handle that is
  in the list never raises. The warning that the socket was not found is logged exactly
  when the handle is in the list, is the last one in it and the chain has no transport;
  that release removes the handle, logs the warning and changes nothing else.
\<close>

theorem release_absent_handle:
  assumes "disconnectChainSocket w c h s = (r, s')"
  shows "(h \<notin> set (activeUsers s c) \<longrightarrow>
            (\<exists>e. r = Inl e) \<and> s' = s \<and>
            (\<forall>us. socketUsers s c = Some us \<longrightarrow> r = Inl (UserNotInList c h us))) \<and>
         (h \<in> set (activeUsers s c) \<longrightarrow> r = Inr ()) \<and>
         (LogWarn (''Failed to disconnect socket: socket '' @ c @ '' not found'')
            \<in> set (newEffects s s') \<longleftrightarrow>
          h \<in> set (activeUsers s c) \<and> remove1 h (activeUsers s c) = [] \<and>
          socketConnections s c = None) \<and>
         (h \<in> set (activeUsers s c) \<and> remove1 h (activeUsers s c) = [] \<and>
          socketConnections s c = None \<longrightarrow>
            s' = s\<lparr>socketUsers := (socketUsers s)(c \<mapsto> []),
                   effects := effects s @
                     [LogWarn (''Failed to disconnect socket: socket '' @ c @ '' not found'')]\<rparr>)"
proof (cases "socketUsers s c")
  case None
  with assms show ?thesis
    by (auto simp: disconnectChainSocket_cases activeUsers_def newEffects_def)
next
  case (Some us)
  show ?thesis
  proof (cases "h \<in> set us")
    case False
    with Some assms show ?thesis
      by (auto simp: disconnectChainSocket_cases activeUsers_def newEffects_def)
  next
    case True
    show ?thesis
    proof (cases "remove1 h us = []")
      case False
      with True Some assms show ?thesis
        by (auto simp: disconnectChainSocket_cases activeUsers_def newEffects_def)
    next
      case empty: True
      show ?thesis
      proof (cases "socketConnections s c")
        case None
        with empty True Some assms show ?thesis
          by (auto simp: disconnectChainSocket_cases activeUsers_def newEffects_def)
      next
        case (Some ws)
        with empty True \<open>socketUsers s c = Some us\<close> assms show ?thesis
          by (auto simp: disconnectChainSocket_cases activeUsers_def newEffects_def
                split: option.splits)
      qed
    qed
  qed
qed

theorem release_absent_handle_witness:
  "disconnectChainSocket directory ''polkadot'' 25000000 poolClosed =
     (Inl (UserNotInList ''polkadot'' 25000000 []), poolClosed) \<and>
   socketUsers poolClosed ''polkadot'' = Some [] \<and>
   25000000 \<notin> set (activeUsers poolClosed ''polkadot'') \<and>
   disconnectChainSocket directory ''kusama'' 25000000 pool0 = (Inl TypeError, pool0) \<and>
   25000000 \<notin> set (activeUsers pool0 ''kusama'') \<and>
   disconnectChainSocket directory ''polkadot'' 25000000 pool2 = (Inr (), pool3) \<and>
   25000000 \<in> set (activeUsers pool2 ''polkadot'') \<and>
   remove1 25000000 (activeUsers pool2 ''polkadot'') \<noteq> [] \<and>
   LogWarn ''Failed to disconnect socket: socket polkadot not found''
     \<notin> set (newEffects pool2 pool3) \<and>
   disconnectChainSocket directory ''polkadot'' 25000000 poolReady = (Inr (), poolClosed) \<and>
   socketConnections poolReady ''polkadot'' \<noteq> None \<and>
   LogWarn ''Failed to disconnect socket: socket polkadot not found''
     \<notin> set (newEffects poolReady poolClosed) \<and>
   disconnectChainSocket directory ''kusama'' 25000000 poolLeak = (Inr (), poolWarned) \<and>
   25000000 \<in> set (activeUsers poolLeak ''kusama'') \<and>
   remove1 25000000 (activeUsers poolLeak ''kusama'') = [] \<and>
   socketConnections poolLeak ''kusama'' = None \<and>
   LogWarn ''Failed to disconnect socket: socket kusama not found''
     \<in> set (newEffects poolLeak poolWarned)"
proof -
  have closed: "socketUsers poolClosed ''polkadot'' = Some []"
    "25000000 \<notin> set (activeUsers poolClosed ''polkadot'')"
    by (simp_all add: activeUsers_def poolClosed_def)
  have never: "25000000 \<notin> set (activeUsers pool0 ''kusama'')"
    by (simp add: activeUsers_def pool0_def newChainConnector_def)
  have two: "25000000 \<in> set (activeUsers pool2 ''polkadot'')"
    "remove1 25000000 (activeUsers pool2 ''polkadot'') \<noteq> []"
    by (simp_all add: activeUsers_def pool2_def)
  with release_absent_handle [OF release_pool2]
  have quiet: "LogWarn (''Failed to disconnect socket: socket '' @ ''polkadot'' @ '' not found'')
     \<notin> set (newEffects pool2 pool3)"
    by blast
  have ready: "socketConnections poolReady ''polkadot'' \<noteq> None"
    by (simp add: poolReady_def)
  with release_absent_handle [OF release_poolReady]
  have torn: "LogWarn (''Failed to disconnect socket: socket '' @ ''polkadot'' @ '' not found'')
     \<notin> set (newEffects poolReady poolClosed)"
    by blast
  have leak: "25000000 \<in> set (activeUsers poolLeak ''kusama'')"
    "remove1 25000000 (activeUsers poolLeak ''kusama'') = []"
    "socketConnections poolLeak ''kusama'' = None"
    by (simp_all add: activeUsers_def poolLeak_def)
  with release_absent_handle [OF release_poolLeak]
  have warned: "LogWarn (''Failed to disconnect socket: socket '' @ ''kusama'' @ '' not found'')
     \<in> set (newEffects poolLeak poolWarned)"
    by blast
  from release_poolClosed closed release_unknown never release_pool2 two quiet
    release_poolReady ready torn release_poolLeak leak warned
  show ?thesis by simp
qed

subsection \<open>Acquire that fails while opening a transport\<close>

text \<open>
  Claim C7, at an input where the code departs from it. The new pool acquires a chain
  whose endpoint list is empty: the error is returned and the chain has no transport and
  no timer, but the handle that \<^verbatim>\<open>addSocketUser\<close> pushed before the endpoints were
  looked at stays in the chain's list.
\<close>

theorem failed_acquire_leaves_handle:
  "getChain directory ''kusama'' = Some kusama \<and> sortedRpcs kusama = [] \<and>
   activeUsers pool0 ''kusama'' = [] \<and> socketConnections pool0 ''kusama'' = None \<and>
   connectChainSocket directory ''kusama'' pool0 = Some (Inl (NoHealthyRpcs ''kusama''), poolLeak) \<and>
   activeUsers poolLeak ''kusama'' = [25000000] \<and>
   socketConnections poolLeak ''kusama'' = None \<and>
   socketKeepAliveIntervals poolLeak ''kusama'' = None"
  using acquire_kusama sortedRpcs_kusama
  by (simp add: directory_def activeUsers_def pool0_def newChainConnector_def poolLeak_def)

subsection \<open>Errors of acquire\<close>

text \<open>
  Claim C5 does not hold as it is written: a chain whose endpoints are all flagged
  unhealthy is still connected, with those endpoints.
\<close>

theorem unhealthy_endpoints_still_connect:
  "getChain directory ''westend'' = Some westend \<and>
   map isHealthy (chainRpcs westend) = [False] \<and>
   socketConnections pool0 ''westend'' = None \<and>
   connectChainSocket directory ''westend'' pool0 = Some (Inr (25000000, westendWs), poolWestend) \<and>
   endpoints westendWs = [''E'']"
  using acquire_westend
  by (simp add: directory_def chainRpcs_def westend_def pool0_def newChainConnector_def westendWs_def)

text \<open>
  Claim C5, amended. Acquire fails with the chain-not-found error exactly when the
  directory has no chain for the id. Otherwise, when the chain has no connection entry
  and the id loop returns, it fails with the no-healthy-endpoints error exactly when the
  built endpoint list is empty, which is exactly when the chain has no candidate at all.
  In every other case in which the id loop returns and the \<^verbatim>\<open>WsProvider\<close> constructor
  does not throw, it returns a handle and a connection.
\<close>

theorem connectChainSocket_errors:
  "(map_option fst (connectChainSocket w c s) = Some (Inl (ChainNotFound c)) \<longleftrightarrow>
      getChain w c = None) \<and>
   (getChain w c = Some chain \<and> socketConnections s c = None \<and>
    (\<exists>n. getRandomId (random s !! n) \<notin> set (activeUsers s c)) \<longrightarrow>
      (map_option fst (connectChainSocket w c s) = Some (Inl (NoHealthyRpcs c)) \<longleftrightarrow>
         sortedRpcs chain = []) \<and>
      (sortedRpcs chain = [] \<longleftrightarrow> chainRpcs chain = [])) \<and>
   (getChain w c = Some chain \<and>
    (\<exists>n. getRandomId (random s !! n) \<notin> set (activeUsers s c)) \<and>
    (socketConnections s c \<noteq> None \<or>
     sortedRpcs chain \<noteq> [] \<and> wsProviderThrows w (sortedRpcs chain) 1000 = None) \<longrightarrow>
      (\<exists>h ws s'. connectChainSocket w c s = Some (Inr (h, ws), s')))"
proof (intro conjI impI)
  show "map_option fst (connectChainSocket w c s) = Some (Inl (ChainNotFound c)) \<longleftrightarrow>
      getChain w c = None"
    by (auto simp: connectChainSocket_def Let_def split: option.splits if_splits)
next
  assume a: "getChain w c = Some chain \<and> socketConnections s c = None \<and>
    (\<exists>n. getRandomId (random s !! n) \<notin> set (activeUsers s c))"
  then obtain h s1 where s1: "addSocketUser c s = Some (h, s1)"
    by (blast dest: addSocketUser_returns)
  from addSocketUser_Some(3) [OF s1] a have "socketConnections s1 c = None" by simp
  with a s1 show "map_option fst (connectChainSocket w c s) = Some (Inl (NoHealthyRpcs c)) \<longleftrightarrow>
         sortedRpcs chain = []"
    by (auto simp: connectChainSocket_def Let_def split: option.splits)
  show "sortedRpcs chain = [] \<longleftrightarrow> chainRpcs chain = []" by (rule sortedRpcs_empty)
next
  assume a: "getChain w c = Some chain \<and>
    (\<exists>n. getRandomId (random s !! n) \<notin> set (activeUsers s c)) \<and>
    (socketConnections s c \<noteq> None \<or>
     sortedRpcs chain \<noteq> [] \<and> wsProviderThrows w (sortedRpcs chain) 1000 = None)"
  then obtain h s1 where s1: "addSocketUser c s = Some (h, s1)"
    by (blast dest: addSocketUser_returns)
  from addSocketUser_Some(3) [OF s1] have "socketConnections s1 c = socketConnections s c" by simp
  with a s1 show "\<exists>h ws s'. connectChainSocket w c s = Some (Inr (h, ws), s')"
    by (auto simp: connectChainSocket_def Let_def split: option.splits)
qed

theorem connectChainSocket_errors_witness:
  "getChain directory ''moonbeam'' = None \<and>
   map_option fst (connectChainSocket directory ''moonbeam'' pool0) = Some (Inl (ChainNotFound ''moonbeam'')) \<and>
   getChain directory ''kusama'' = Some kusama \<and> socketConnections pool0 ''kusama'' = None \<and>
   getRandomId (random pool0 !! 0) \<notin> set (activeUsers pool0 ''kusama'') \<and>
   chainRpcs kusama = [] \<and> sortedRpcs kusama = [] \<and>
   map_option fst (connectChainSocket directory ''kusama'' pool0) = Some (Inl (NoHealthyRpcs ''kusama'')) \<and>
   getChain directory ''westend'' = Some westend \<and>
   getRandomId (random pool0 !! 0) \<notin> set (activeUsers pool0 ''westend'') \<and>
   sortedRpcs westend \<noteq> [] \<and> wsProviderThrows directory (sortedRpcs westend) 1000 = None \<and>
   (\<exists>h ws s'. connectChainSocket directory ''westend'' pool0 = Some (Inr (h, ws), s'))"
proof -
  have m: "getChain directory ''moonbeam'' = None"
    by (simp add: directory_def)
  with connectChainSocket_errors [where w = directory and c = "''moonbeam''" and s = pool0]
  have m': "map_option fst (connectChainSocket directory ''moonbeam'' pool0) =
      Some (Inl (ChainNotFound ''moonbeam''))" by blast
  have k: "getChain directory ''kusama'' = Some kusama \<and> socketConnections pool0 ''kusama'' = None"
    by (simp add: directory_def pool0_def newChainConnector_def)
  have k0: "chainRpcs kusama = []"
    by (simp add: chainRpcs_def kusama_def)
  from k k0 pool0_first_draw [of "''kusama''"]
    connectChainSocket_errors [where w = directory and c = "''kusama''" and s = pool0 and chain = kusama]
  have k': "sortedRpcs kusama = [] \<and>
     map_option fst (connectChainSocket directory ''kusama'' pool0) = Some (Inl (NoHealthyRpcs ''kusama''))"
    by blast
  have e: "getChain directory ''westend'' = Some westend \<and> sortedRpcs westend \<noteq> [] \<and>
     wsProviderThrows directory (sortedRpcs westend) 1000 = None"
    by (simp add: directory_def sortedRpcs_westend)
  with pool0_first_draw [of "''westend''"]
    connectChainSocket_errors [where w = directory and c = "''westend''" and s = pool0 and chain = westend]
  have e': "\<exists>h ws s'. connectChainSocket directory ''westend'' pool0 = Some (Inr (h, ws), s')"
    by blast
  from m m' k k0 k' e e' pool0_first_draw [of "''kusama''"] pool0_first_draw [of "''westend''"]
  show ?thesis by blast
qed

section \<open>The request multiplexer: properties\<close>

lemma send_released:
  assumes "connectChainSocket w c s = Some (Inr (h, ws), s1)"
    and "h \<in> set (activeUsers (during s1) c)"
  shows "\<exists>s2. send wsSend w during c m p ic s = Some (wsSend ws m p ic, s2) \<and>
              activeUsers s2 c = remove1 h (activeUsers (during s1) c)"
proof (cases "wsSend ws m p ic")
  case (Inl err)
  from disconnectChainSocket_logged [OF assms(2), of w "[LogError err]"]
  obtain s2 where "disconnectChainSocket w c h
      ((during s1)\<lparr>effects := effects (during s1) @ [LogError err]\<rparr>) = (Inr (), s2)"
    "activeUsers s2 c = remove1 h (activeUsers (during s1) c)" by blast
  with assms(1) Inl show ?thesis by (simp add: send_def)
next
  case (Inr v)
  from disconnectChainSocket_member [OF assms(2), of w]
  obtain s2 where "disconnectChainSocket w c h (during s1) = (Inr (), s2)"
    "activeUsers s2 c = remove1 h (activeUsers (during s1) c)" by blast
  with assms(1) Inr show ?thesis by (simp add: send_def)
qed

lemma subscribe_failed:
  assumes "connectChainSocket w c s = Some (Inr (h, ws), s1)"
    and "h \<in> set (activeUsers (during s1) c)"
    and "wsSubscribe ws rm sm p = Inl err"
  shows "\<exists>s2. subscribe wsSubscribe w during c sm um rm p s = Some (Inl err, s2) \<and>
              activeUsers s2 c = remove1 h (activeUsers (during s1) c)"
proof -
  from disconnectChainSocket_member [OF assms(2), of w]
  obtain s2 where "disconnectChainSocket w c h (during s1) = (Inr (), s2)"
    "activeUsers s2 c = remove1 h (activeUsers (during s1) c)" by blast
  with assms(1,3) show ?thesis by (simp add: subscribe_def)
qed

lemma subscribe_succeeded:
  assumes "connectChainSocket w c s = Some (Inr (h, ws), s1)"
    and "wsSubscribe ws rm sm p = Inr sid"
  shows "subscribe wsSubscribe w during c sm um rm p s =
           Some (Inr \<lparr>unsubChainId = c, unsubSocketUserId = h, unsubWs = ws,
                      unsubResponseMethod = rm, unsubMethod = um, unsubSubscriptionId = sid\<rparr>,
                 during s1)"
  using assms by (simp add: subscribe_def)

lemma unsubscribe_released:
  assumes "h \<in> set (activeUsers t c)" and "wsUnsubscribe ws rm um sid = Inr ack"
  shows "\<exists>t'. unsubscribe wsUnsubscribe w
                 \<lparr>unsubChainId = c, unsubSocketUserId = h, unsubWs = ws,
                  unsubResponseMethod = rm, unsubMethod = um, unsubSubscriptionId = sid\<rparr> t = (Inr (), t') \<and>
              activeUsers t' c = remove1 h (activeUsers t c)"
  using disconnectChainSocket_member [OF assms(1), of w] assms(2)
  by (simp add: unsubscribe_def)

lemma unsubscribe_absent:
  assumes "h \<notin> set (activeUsers t c)"
  shows "fst (unsubscribe wsUnsubscribe w
                 \<lparr>unsubChainId = c, unsubSocketUserId = h, unsubWs = ws,
                  unsubResponseMethod = rm, unsubMethod = um, unsubSubscriptionId = sid\<rparr> t) \<noteq> Inr () \<and>
         snd (unsubscribe wsUnsubscribe w
                 \<lparr>unsubChainId = c, unsubSocketUserId = h, unsubWs = ws,
                  unsubResponseMethod = rm, unsubMethod = um, unsubSubscriptionId = sid\<rparr> t) = t"
  using disconnectChainSocket_absent [OF assms, of w]
  by (cases "wsUnsubscribe ws rm um sid") (simp_all add: unsubscribe_def)

text \<open>
  The paths on which the multiplexer releases. When the acquire fails, \<^verbatim>\<open>send\<close> and
  \<^verbatim>\<open>subscribe\<close> fail with its error in the state that the acquire has left. When it
  returns handle \<open>h\<close>, which is new in the chain's list, and other callers leave \<open>h\<close>
  in the list meanwhile: \<^verbatim>\<open>send\<close> returns what the provider answered, value or error,
  with one occurrence of \<open>h\<close> removed from the list; \<^verbatim>\<open>subscribe\<close> whose provider call
  fails returns that error with \<open>h\<close> removed likewise, and no closure. With no other
  caller in between, the list is then what it was before the call. A \<^verbatim>\<open>subscribe\<close>
  whose provider call succeeds returns the closure and leaves \<open>h\<close> in the list; calling
  the closure, when the provider acknowledges, removes \<open>h\<close> once, and calling it when
  \<open>h\<close> is no longer in the list does not return normally and changes nothing. A call of
  the closure that the provider rejects fails with the provider's error before the
  release is reached.
\<close>

lemma multiplexer_release_paths:
  "(connectChainSocket w c s = Some (Inl e, s') \<longrightarrow>
      send wsSend w during c m p ic s = Some (Inl e, s') \<and>
      subscribe wsSubscribe w during c sm um rm q s = Some (Inl e, s')) \<and>
   (connectChainSocket w c s = Some (Inr (h, ws), s') \<longrightarrow>
      activeUsers s' c = activeUsers s c @ [h] \<and> h \<notin> set (activeUsers s c) \<and>
      remove1 h (activeUsers s' c) = activeUsers s c) \<and>
   (connectChainSocket w c s = Some (Inr (h, ws), s') \<longrightarrow>
      (\<exists>s2. send wsSend w id c m p ic s = Some (wsSend ws m p ic, s2) \<and>
            activeUsers s2 c = activeUsers s c) \<and>
      (\<forall>err. wsSubscribe ws rm sm q = Inl err \<longrightarrow>
         (\<exists>s2. subscribe wsSubscribe w id c sm um rm q s = Some (Inl err, s2) \<and>
               activeUsers s2 c = activeUsers s c))) \<and>
   (connectChainSocket w c s = Some (Inr (h, ws), s') \<and> h \<in> set (activeUsers (during s') c) \<longrightarrow>
      (\<exists>s2. send wsSend w during c m p ic s = Some (wsSend ws m p ic, s2) \<and>
            activeUsers s2 c = remove1 h (activeUsers (during s') c)) \<and>
      (\<forall>err. wsSubscribe ws rm sm q = Inl err \<longrightarrow>
         (\<exists>s2. subscribe wsSubscribe w during c sm um rm q s = Some (Inl err, s2) \<and>
               activeUsers s2 c = remove1 h (activeUsers (during s') c)))) \<and>
   (connectChainSocket w c s = Some (Inr (h, ws), s') \<and> wsSubscribe ws rm sm q = Inr sid \<longrightarrow>
      (\<exists>f. subscribe wsSubscribe w during c sm um rm q s = Some (Inr f, during s') \<and>
           unsubChainId f = c \<and> unsubSocketUserId f = h \<and>
           (\<forall>t ack. h \<in> set (activeUsers t c) \<and>
                wsUnsubscribe (unsubWs f) (unsubResponseMethod f) (unsubMethod f)
                  (unsubSubscriptionId f) = Inr ack \<longrightarrow>
              (\<exists>t'. unsubscribe wsUnsubscribe w f t = (Inr (), t') \<and>
                    activeUsers t' c = remove1 h (activeUsers t c))) \<and>
           (\<forall>t. h \<notin> set (activeUsers t c) \<longrightarrow>
              fst (unsubscribe wsUnsubscribe w f t) \<noteq> Inr () \<and>
              snd (unsubscribe wsUnsubscribe w f t) = t) \<and>
           (\<forall>t err. wsUnsubscribe (unsubWs f) (unsubResponseMethod f) (unsubMethod f)
                  (unsubSubscriptionId f) = Inl err \<longrightarrow>
              unsubscribe wsUnsubscribe w f t = (Inl err, t))))"
proof (intro conjI impI allI)
  assume "connectChainSocket w c s = Some (Inl e, s')"
  then show "send wsSend w during c m p ic s = Some (Inl e, s')"
    and "subscribe wsSubscribe w during c sm um rm q s = Some (Inl e, s')"
    by (simp_all add: send_def subscribe_def)
next
  assume a: "connectChainSocket w c s = Some (Inr (h, ws), s')"
  from connectChainSocket_users [OF a]
  show "activeUsers s' c = activeUsers s c @ [h]" "h \<notin> set (activeUsers s c)"
    "remove1 h (activeUsers s' c) = activeUsers s c" .
next
  assume a: "connectChainSocket w c s = Some (Inr (h, ws), s')"
  note u = connectChainSocket_users [OF a]
  from u(1) have held: "h \<in> set (activeUsers (id s') c)" by simp
  from send_released [where during = id and wsSend = wsSend and m = m and p = p and ic = ic, OF a held] u(3)
  show "\<exists>s2. send wsSend w id c m p ic s = Some (wsSend ws m p ic, s2) \<and>
            activeUsers s2 c = activeUsers s c"
    by simp
  fix err assume "wsSubscribe ws rm sm q = Inl err"
  from subscribe_failed [where during = id and um = um and wsSubscribe = wsSubscribe and rm = rm
      and sm = sm and p = q, OF a held this] u(3)
  show "\<exists>s2. subscribe wsSubscribe w id c sm um rm q s = Some (Inl err, s2) \<and>
               activeUsers s2 c = activeUsers s c"
    by simp
next
  assume a: "connectChainSocket w c s = Some (Inr (h, ws), s') \<and> h \<in> set (activeUsers (during s') c)"
  then show "\<exists>s2. send wsSend w during c m p ic s = Some (wsSend ws m p ic, s2) \<and>
            activeUsers s2 c = remove1 h (activeUsers (during s') c)"
    by (blast intro: send_released)
  fix err assume "wsSubscribe ws rm sm q = Inl err"
  with a show "\<exists>s2. subscribe wsSubscribe w during c sm um rm q s = Some (Inl err, s2) \<and>
               activeUsers s2 c = remove1 h (activeUsers (during s') c)"
    by (blast intro: subscribe_failed)
next
  assume a: "connectChainSocket w c s = Some (Inr (h, ws), s') \<and> wsSubscribe ws rm sm q = Inr sid"
  let ?f = "\<lparr>unsubChainId = c, unsubSocketUserId = h, unsubWs = ws,
             unsubResponseMethod = rm, unsubMethod = um, unsubSubscriptionId = sid\<rparr>"
  from a have "subscribe wsSubscribe w during c sm um rm q s = Some (Inr ?f, during s')"
    by (simp add: subscribe_succeeded)
  moreover have "\<forall>t ack. h \<in> set (activeUsers t c) \<and>
                wsUnsubscribe (unsubWs ?f) (unsubResponseMethod ?f) (unsubMethod ?f)
                  (unsubSubscriptionId ?f) = Inr ack \<longrightarrow>
              (\<exists>t'. unsubscribe wsUnsubscribe w ?f t = (Inr (), t') \<and>
                    activeUsers t' c = remove1 h (activeUsers t c))"
    using unsubscribe_released [of h _ c wsUnsubscribe ws rm um sid _ w] by simp
  moreover have "\<forall>t. h \<notin> set (activeUsers t c) \<longrightarrow>
              fst (unsubscribe wsUnsubscribe w ?f t) \<noteq> Inr () \<and>
              snd (unsubscribe wsUnsubscribe w ?f t) = t"
    using unsubscribe_absent [of h _ c wsUnsubscribe w ws rm um sid] by simp
  moreover have "\<forall>t err. wsUnsubscribe (unsubWs ?f) (unsubResponseMethod ?f) (unsubMethod ?f)
                  (unsubSubscriptionId ?f) = Inl err \<longrightarrow>
              unsubscribe wsUnsubscribe w ?f t = (Inl err, t)"
    by (simp add: unsubscribe_def)
  ultimately show "\<exists>f. subscribe wsSubscribe w during c sm um rm q s = Some (Inr f, during s') \<and>
           unsubChainId f = c \<and> unsubSocketUserId f = h \<and>
           (\<forall>t ack. h \<in> set (activeUsers t c) \<and>
                wsUnsubscribe (unsubWs f) (unsubResponseMethod f) (unsubMethod f)
                  (unsubSubscriptionId f) = Inr ack \<longrightarrow>
              (\<exists>t'. unsubscribe wsUnsubscribe w f t = (Inr (), t') \<and>
                    activeUsers t' c = remove1 h (activeUsers t c))) \<and>
           (\<forall>t. h \<notin> set (activeUsers t c) \<longrightarrow>
              fst (unsubscribe wsUnsubscribe w f t) \<noteq> Inr () \<and>
              snd (unsubscribe wsUnsubscribe w f t) = t) \<and>
           (\<forall>t err. wsUnsubscribe (unsubWs f) (unsubResponseMethod f) (unsubMethod f)
                  (unsubSubscriptionId f) = Inl err \<longrightarrow>
              unsubscribe wsUnsubscribe w f t = (Inl err, t))"
    by (intro exI [of _ ?f]) simp
qed

lemma multiplexer_release_paths_example:
  "connectChainSocket directory ''polkadot'' pool0 = Some (Inr (25000000, polkadotWs), pool1) \<and>
   25000000 \<in> set (activeUsers (id pool1) ''polkadot'') \<and>
   activeUsers pool0 ''polkadot'' = [] \<and>
   (\<exists>s2. send exampleSend directory id ''polkadot'' ''system_health'' [] None pool0 =
           Some (Inr ''ok'', s2) \<and> activeUsers s2 ''polkadot'' = []) \<and>
   (\<exists>s2. send exampleSend directory id ''polkadot'' ''author_submitExtrinsic'' [] None pool0 =
           Some (Inl (TransportError ''rejected''), s2) \<and> activeUsers s2 ''polkadot'' = []) \<and>
   (\<exists>s2. subscribe exampleSubscribe directory id ''polkadot'' ''state_subscribeStorage''
            ''state_unsubscribeStorage'' ''state_storage'' [] pool0 =
           Some (Inl (TransportError ''rejected''), s2) \<and> activeUsers s2 ''polkadot'' = []) \<and>
   (\<exists>f. subscribe exampleSubscribe directory id ''polkadot'' ''chain_subscribeNewHeads''
            ''chain_unsubscribeNewHeads'' ''chain_newHead'' [] pool0 = Some (Inr f, pool1) \<and>
        activeUsers pool1 ''polkadot'' = [25000000] \<and>
        (\<exists>t'. unsubscribe exampleUnsubscribe directory f pool1 = (Inr (), t') \<and>
              activeUsers t' ''polkadot'' = [])) \<and>
   connectChainSocket directory ''moonbeam'' pool0 = Some (Inl (ChainNotFound ''moonbeam''), pool0) \<and>
   send exampleSend directory id ''moonbeam'' ''system_health'' [] None pool0 =
     Some (Inl (ChainNotFound ''moonbeam''), pool0)"
proof -
  note inst = multiplexer_release_paths [where w = directory and c = "''polkadot''" and s = pool0
      and h = 25000000 and ws = polkadotWs and s' = pool1 and during = id
      and wsSubscribe = exampleSubscribe and wsUnsubscribe = exampleUnsubscribe and q = "[]"
      and wsSend = exampleSend and p = "[]" and ic = None]
  have held: "25000000 \<in> set (activeUsers (id pool1) ''polkadot'')"
    and u1: "activeUsers (id pool1) ''polkadot'' = [25000000]"
    and u1': "activeUsers pool1 ''polkadot'' = [25000000]"
    and u0: "activeUsers pool0 ''polkadot'' = []"
    by (simp_all add: activeUsers_def pool1_def pool0_def newChainConnector_def)
  have ok: "exampleSend polkadotWs ''system_health'' [] None = Inr ''ok''"
    and rejected: "exampleSend polkadotWs ''author_submitExtrinsic'' [] None =
      Inl (TransportError ''rejected'')"
    and refused: "exampleSubscribe polkadotWs ''state_storage'' ''state_subscribeStorage'' [] =
      Inl (TransportError ''rejected'')"
    and accepted: "exampleSubscribe polkadotWs ''chain_newHead'' ''chain_subscribeNewHeads'' [] = Inr 7"
    by (simp_all add: exampleSend_def exampleSubscribe_def)
  have sent: "\<exists>s2. send exampleSend directory id ''polkadot'' m [] None pool0 =
           Some (exampleSend polkadotWs m [] None, s2) \<and>
           activeUsers s2 ''polkadot'' = remove1 25000000 (activeUsers (id pool1) ''polkadot'')" for m
    using inst [where m = m] acquire_pool0 held by blast
  from sent [of "''system_health''"] ok u1'
  have w3: "\<exists>s2. send exampleSend directory id ''polkadot'' ''system_health'' [] None pool0 =
           Some (Inr ''ok'', s2) \<and> activeUsers s2 ''polkadot'' = []"
    by simp
  from sent [of "''author_submitExtrinsic''"] rejected u1'
  have w4: "\<exists>s2. send exampleSend directory id ''polkadot'' ''author_submitExtrinsic'' [] None pool0 =
           Some (Inl (TransportError ''rejected''), s2) \<and> activeUsers s2 ''polkadot'' = []"
    by simp
  have "\<exists>s2. subscribe exampleSubscribe directory id ''polkadot'' ''state_subscribeStorage''
            ''state_unsubscribeStorage'' ''state_storage'' [] pool0 =
           Some (Inl (TransportError ''rejected''), s2) \<and>
           activeUsers s2 ''polkadot'' = remove1 25000000 (activeUsers (id pool1) ''polkadot'')"
    using inst [where sm = "''state_subscribeStorage''" and um = "''state_unsubscribeStorage''"
      and rm = "''state_storage''"] acquire_pool0 held refused by blast
  with u1'
  have w5: "\<exists>s2. subscribe exampleSubscribe directory id ''polkadot'' ''state_subscribeStorage''
            ''state_unsubscribeStorage'' ''state_storage'' [] pool0 =
           Some (Inl (TransportError ''rejected''), s2) \<and> activeUsers s2 ''polkadot'' = []"
    by simp
  from inst [where sm = "''chain_subscribeNewHeads''" and um = "''chain_unsubscribeNewHeads''"
      and rm = "''chain_newHead''" and sid = 7] acquire_pool0 accepted
  obtain f where f: "subscribe exampleSubscribe directory id ''polkadot'' ''chain_subscribeNewHeads''
            ''chain_unsubscribeNewHeads'' ''chain_newHead'' [] pool0 = Some (Inr f, id pool1)"
    and unsub: "\<forall>t ack. 25000000 \<in> set (activeUsers t ''polkadot'') \<and>
                exampleUnsubscribe (unsubWs f) (unsubResponseMethod f) (unsubMethod f)
                  (unsubSubscriptionId f) = Inr ack \<longrightarrow>
              (\<exists>t'. unsubscribe exampleUnsubscribe directory f t = (Inr (), t') \<and>
                    activeUsers t' ''polkadot'' = remove1 25000000 (activeUsers t ''polkadot''))"
    by blast
  have "exampleUnsubscribe (unsubWs f) (unsubResponseMethod f) (unsubMethod f)
                  (unsubSubscriptionId f) = Inr True"
    by (simp add: exampleUnsubscribe_def)
  with unsub u1' have "\<exists>t'. unsubscribe exampleUnsubscribe directory f pool1 = (Inr (), t') \<and>
      activeUsers t' ''polkadot'' = remove1 25000000 [25000000]"
    by (metis list.set_intros(1))
  with f u1' have w6: "\<exists>f. subscribe exampleSubscribe directory id ''polkadot'' ''chain_subscribeNewHeads''
            ''chain_unsubscribeNewHeads'' ''chain_newHead'' [] pool0 = Some (Inr f, pool1) \<and>
        activeUsers pool1 ''polkadot'' = [25000000] \<and>
        (\<exists>t'. unsubscribe exampleUnsubscribe directory f pool1 = (Inr (), t') \<and>
              activeUsers t' ''polkadot'' = [])"
    by auto
  have nf: "connectChainSocket directory ''moonbeam'' pool0 =
      Some (Inl (ChainNotFound ''moonbeam''), pool0)"
    by (simp add: connectChainSocket_def directory_def)
  note failed = multiplexer_release_paths [where w = directory and c = "''moonbeam''" and s = pool0
      and e = "ChainNotFound ''moonbeam''" and s' = pool0 and wsSend = exampleSend
      and during = id and m = "''system_health''" and p = "[]" and ic = None,
      THEN conjunct1, THEN mp, OF nf, THEN conjunct1]
  then have w7: "send exampleSend directory id ''moonbeam'' ''system_health'' [] None pool0 =
     Some (Inl (ChainNotFound ''moonbeam''), pool0)" .
  from acquire_pool0 held u0 w3 w4 w5 w6 nf w7 show ?thesis by blast
qed

lemma send_kusama:
  "send exampleSend directory id ''kusama'' ''system_health'' [] None pool0 =
     Some (Inl (NoHealthyRpcs ''kusama''), poolLeak)"
  by (simp add: send_def acquire_kusama)

lemma subscribe_kusama:
  "subscribe exampleSubscribe directory id ''kusama'' ''chain_subscribeNewHeads''
     ''chain_unsubscribeNewHeads'' ''chain_newHead'' [] pool0 =
     Some (Inl (NoHealthyRpcs ''kusama''), poolLeak)"
  by (simp add: subscribe_def acquire_kusama)

lemma subscribe_polkadot:
  "subscribe exampleSubscribe directory id ''polkadot'' ''chain_subscribeNewHeads''
     ''chain_unsubscribeNewHeads'' ''chain_newHead'' [] pool0 =
     Some (Inr newHeadsUnsubscribe, pool1)"
  by (simp add: subscribe_def acquire_pool0 exampleSubscribe_def newHeadsUnsubscribe_def)

lemma unsubscribe_rejected:
  "unsubscribe rejectingUnsubscribe directory newHeadsUnsubscribe pool1 =
     (Inl (TransportError ''rejected''), pool1)"
  by (simp add: unsubscribe_def rejectingUnsubscribe_def)

text \<open>
  Claim C2, at inputs where the code departs from it. On a chain whose endpoint list is
  empty \<^verbatim>\<open>send\<close> and \<^verbatim>\<open>subscribe\<close> fail with the error of the acquire, and the handle
  that the acquire had pushed for them stays in the chain's list: this exit path releases
  nothing. After a \<^verbatim>\<open>subscribe\<close> that succeeded, a call of the returned closure that the
  provider rejects fails with the provider's error and the handle stays in the list: this
  exit path releases nothing either.
\<close>

theorem multiplexer_leaves_handle:
  "activeUsers pool0 ''kusama'' = [] \<and>
   send exampleSend directory id ''kusama'' ''system_health'' [] None pool0 =
     Some (Inl (NoHealthyRpcs ''kusama''), poolLeak) \<and>
   subscribe exampleSubscribe directory id ''kusama'' ''chain_subscribeNewHeads''
     ''chain_unsubscribeNewHeads'' ''chain_newHead'' [] pool0 =
     Some (Inl (NoHealthyRpcs ''kusama''), poolLeak) \<and>
   activeUsers poolLeak ''kusama'' = [25000000] \<and>
   subscribe exampleSubscribe directory id ''polkadot'' ''chain_subscribeNewHeads''
     ''chain_unsubscribeNewHeads'' ''chain_newHead'' [] pool0 =
     Some (Inr newHeadsUnsubscribe, pool1) \<and>
   unsubSocketUserId newHeadsUnsubscribe = 25000000 \<and>
   unsubscribe rejectingUnsubscribe directory newHeadsUnsubscribe pool1 =
     (Inl (TransportError ''rejected''), pool1) \<and>
   activeUsers pool1 ''polkadot'' = [25000000]"
  using send_kusama subscribe_kusama subscribe_polkadot unsubscribe_rejected
  by (simp add: activeUsers_def pool0_def newChainConnector_def poolLeak_def pool1_def
      newHeadsUnsubscribe_def)

end
